theory Spec2Isabelle
  imports Main "HOL-Library.AList"
begin

section \<open>Data model\<close>

text \<open>
  A tab as the browser reports it (the fields of \<^verbatim>\<open>chrome.tabs.Tab\<close> that
  \<^verbatim>\<open>background.js\<close> reads). Ids, window ids and positions are integers;
  \<^verbatim>\<open>lastAccessed\<close> may be absent.
\<close>

record tab =
  tab_id :: int
  tab_windowId :: int
  tab_active :: bool
  tab_index :: int
  tab_url :: string
  tab_status :: string
  tab_lastAccessed :: "int option"

text \<open>
  The record \<^verbatim>\<open>TabsInfo\<close> keeps per tab:
  \<^verbatim>\<open>{ url, lastComplete, ignored, lastAccessed }\<close> (fields prefixed \<open>info_\<close>
  here, as those of \<^verbatim>\<open>keepInfo\<close> are prefixed \<open>keep_\<close>). \<^verbatim>\<open>url\<close> and
  \<^verbatim>\<open>lastComplete\<close> are \<^verbatim>\<open>null\<close> for a tab that has not completed;
  timestamps are the integer milliseconds of \<^verbatim>\<open>Date.now()\<close>.
\<close>

record tabInfo =
  info_url :: "string option"
  info_lastComplete :: "int option"
  info_ignored :: bool
  info_lastAccessed :: int

text \<open>
  \<^verbatim>\<open>TabsInfo.tabs\<close> is a JavaScript \<^verbatim>\<open>Map\<close>: an association list with
  distinct keys in insertion order. \<^verbatim>\<open>Map.set\<close> is \<^const>\<open>AList.update\<close>
  (an existing key keeps its place, a new key goes last), \<^verbatim>\<open>Map.get\<close> is
  \<^const>\<open>map_of\<close>, \<^verbatim>\<open>Map.delete\<close> is \<^const>\<open>AList.delete\<close>.
\<close>

type_synonym tabsInfo = "(int \<times> tabInfo) list"

text \<open>The object \<^verbatim>\<open>keepInfo\<close> built by \<^verbatim>\<open>getCloseInfo\<close>.\<close>

record keepInfo =
  keep_observedTabClosed :: bool
  keep_active :: bool
  keep_tabIndex :: int
  keep_tabId :: int
  keep_windowId :: int

section \<open>The registry \<^verbatim>\<open>TabsInfo\<close>\<close>

text \<open>Every method that reads \<^verbatim>\<open>Date.now()\<close> takes the clock value as \<open>now\<close>.\<close>

definition setNewTab :: "int \<Rightarrow> int \<Rightarrow> tabsInfo \<Rightarrow> tabsInfo" where
  "setNewTab now tabId tabs =
     AList.update tabId
       \<lparr>info_url = None, info_lastComplete = None, info_ignored = False,
        info_lastAccessed = now\<rparr> tabs"

definition setOpenedTab :: "int \<Rightarrow> tab \<Rightarrow> tabsInfo \<Rightarrow> tabsInfo" where
  "setOpenedTab now openedTab tabs =
     AList.update (tab_id openedTab)
       \<lparr>info_url = Some (tab_url openedTab), info_lastComplete = Some now,
        info_ignored = False, info_lastAccessed = now\<rparr> tabs"

definition ignoreTab :: "int \<Rightarrow> int \<Rightarrow> bool \<Rightarrow> tabsInfo \<Rightarrow> tabsInfo" where
  "ignoreTab now tabId state tabs =
     (case map_of tabs tabId of
        Some t \<Rightarrow> AList.update tabId (t\<lparr>info_ignored := state, info_lastAccessed := now\<rparr>) tabs
      | None \<Rightarrow> tabs)"

definition isIgnoredTab :: "tabsInfo \<Rightarrow> int \<Rightarrow> bool" where
  "isIgnoredTab tabs tabId =
     (case map_of tabs tabId of None \<Rightarrow> True | Some t \<Rightarrow> info_ignored t)"

definition getLastComplete :: "tabsInfo \<Rightarrow> int \<Rightarrow> int option" where
  "getLastComplete tabs tabId =
     (case map_of tabs tabId of Some t \<Rightarrow> info_lastComplete t | None \<Rightarrow> None)"

definition updateTab :: "int \<Rightarrow> tab \<Rightarrow> tabsInfo \<Rightarrow> tabsInfo" where
  "updateTab now openedTab tabs =
     (case map_of tabs (tab_id openedTab) of
        Some t \<Rightarrow>
          AList.update (tab_id openedTab)
            (t\<lparr>info_url := Some (tab_url openedTab), info_lastComplete := Some now,
               info_lastAccessed := now\<rparr>) tabs
      | None \<Rightarrow> tabs)"

definition resetTab :: "int \<Rightarrow> int \<Rightarrow> tabsInfo \<Rightarrow> tabsInfo" where
  "resetTab now tabId tabs = setNewTab now tabId tabs"

definition hasUrlChanged :: "tabsInfo \<Rightarrow> tab \<Rightarrow> bool" where
  "hasUrlChanged tabs openedTab =
     (case map_of tabs (tab_id openedTab) of
        Some t \<Rightarrow> info_url t \<noteq> Some (tab_url openedTab)
      | None \<Rightarrow> True)"

definition removeTabInfo :: "int \<Rightarrow> tabsInfo \<Rightarrow> tabsInfo" where
  "removeTabInfo tabId tabs = AList.delete tabId tabs"

definition hasTab :: "tabsInfo \<Rightarrow> int \<Rightarrow> bool" where
  "hasTab tabs tabId = (map_of tabs tabId \<noteq> None)"

section \<open>The tie-break: \<^verbatim>\<open>getLastUpdatedTabId\<close>, \<^verbatim>\<open>getFocusedTab\<close>, \<^verbatim>\<open>getCloseInfo\<close>\<close>

text \<open>
  \<^verbatim>\<open>getLastUpdatedTabId\<close> returns the id of the tab to retain by recency. The
  conditional chain is the source's: observed \<^verbatim>\<open>null\<close> first, then opened
  \<^verbatim>\<open>null\<close>, then the strict comparison.
\<close>

definition getLastUpdatedTabId :: "tabsInfo \<Rightarrow> tab \<Rightarrow> tab \<Rightarrow> int" where
  "getLastUpdatedTabId tabs observedTab openedTab =
     (case getLastComplete tabs (tab_id observedTab) of
        None \<Rightarrow> tab_id openedTab
      | Some observedTabLastUpdate \<Rightarrow>
          (case getLastComplete tabs (tab_id openedTab) of
             None \<Rightarrow> tab_id observedTab
           | Some openedTabLastUpdate \<Rightarrow>
               if observedTabLastUpdate < openedTabLastUpdate
               then tab_id observedTab else tab_id openedTab))"

definition getFocusedTab :: "tab \<Rightarrow> tab \<Rightarrow> int \<Rightarrow> int \<Rightarrow> int" where
  "getFocusedTab observedTab openedTab activeWindowId retainedTabId =
     (if retainedTabId = tab_id observedTab then
        (if tab_windowId openedTab = activeWindowId \<and>
            (tab_active openedTab \<or> tab_windowId observedTab \<noteq> activeWindowId)
         then tab_id openedTab else tab_id observedTab)
      else
        (if tab_windowId observedTab = activeWindowId \<and>
            (tab_active observedTab \<or> tab_windowId openedTab \<noteq> activeWindowId)
         then tab_id observedTab else tab_id openedTab))"

text \<open>
  \<^verbatim>\<open>activeWindowId\<close> is what \<^verbatim>\<open>getActiveWindowId\<close> resolved to: a window id or
  \<^verbatim>\<open>null\<close> (\<open>None\<close>). The test \<^verbatim>\<open>if (activeWindowId)\<close> is JavaScript
  truthiness: \<^verbatim>\<open>null\<close> and the number 0 are both falsy, every other number is
  truthy.
\<close>

definition getCloseInfo :: "tabsInfo \<Rightarrow> tab \<Rightarrow> tab \<Rightarrow> int option \<Rightarrow> int \<times> keepInfo" where
  "getCloseInfo tabs observedTab openedTab activeWindowId =
     (let retainedTabId0 = getLastUpdatedTabId tabs observedTab openedTab;
          retainedTabId =
            (case activeWindowId of
               Some w \<Rightarrow>
                 if w \<noteq> 0 then getFocusedTab observedTab openedTab w retainedTabId0
                 else retainedTabId0
             | None \<Rightarrow> retainedTabId0);
          keep = \<lparr>keep_observedTabClosed = (retainedTabId \<noteq> tab_id observedTab),
                  keep_active = (if retainedTabId = tab_id observedTab
                            then tab_active openedTab else tab_active observedTab),
                  keep_tabIndex = (if retainedTabId = tab_id observedTab
                              then tab_index openedTab else tab_index observedTab),
                  keep_tabId = retainedTabId,
                  keep_windowId = (if retainedTabId = tab_id observedTab
                              then tab_windowId observedTab else tab_windowId openedTab)\<rparr>
      in (if retainedTabId = tab_id observedTab
          then tab_id openedTab else tab_id observedTab, keep))"

text \<open>
  The focus condition in the words of the specification: candidate \<open>x\<close> is in the
  focused window \<open>w\<close> and (is itself the active tab or the other candidate \<open>y\<close> is not
  in the focused window).
\<close>

definition focusPreferred :: "tab \<Rightarrow> tab \<Rightarrow> int \<Rightarrow> bool" where
  "focusPreferred x y w =
     (tab_windowId x = w \<and> (tab_active x \<or> tab_windowId y \<noteq> w))"

section \<open>URL utilities\<close>

text \<open>
  JavaScript strings are modelled as \<^typ>\<open>string\<close> restricted to ASCII, the alphabet of
  the URLs the claims are about: \<^verbatim>\<open>toLowerCase\<close> maps \<open>A\<close>..\<open>Z\<close> to
  \<open>a\<close>..\<open>z\<close> and leaves every other character alone.
\<close>

definition startsWith :: "string \<Rightarrow> string \<Rightarrow> bool" where
  "startsWith s p = (take (length p) s = p)"

definition endsWith :: "string \<Rightarrow> string \<Rightarrow> bool" where
  "endsWith s p = (length p \<le> length s \<and> drop (length s - length p) s = p)"

text \<open>\<^verbatim>\<open>s.includes(p)\<close>: \<open>p\<close> occurs in \<open>s\<close> as a contiguous substring.\<close>

fun includesStr :: "string \<Rightarrow> string \<Rightarrow> bool" where
  "includesStr [] p = (p = [])"
| "includesStr (c # cs) p = (startsWith (c # cs) p \<or> includesStr cs p)"

definition toLowerChar :: "char \<Rightarrow> char" where
  "toLowerChar c =
     (case map_of (zip ''ABCDEFGHIJKLMNOPQRSTUVWXYZ'' ''abcdefghijklmnopqrstuvwxyz'') c of
        Some d \<Rightarrow> d
      | None \<Rightarrow> c)"

definition toLowerCase :: "string \<Rightarrow> string" where
  "toLowerCase s = map toLowerChar s"

text \<open>\<^verbatim>\<open>s.split("#")[0]\<close>: the part of \<open>s\<close> before the first \<open>#\<close>.\<close>

definition splitHashFirst :: "string \<Rightarrow> string" where
  "splitHashFirst s = takeWhile (\<lambda>c. c \<noteq> CHR ''#'') s"

text \<open>
  \<^verbatim>\<open>s.replace(pat, rep)\<close> with a string pattern replaces the first occurrence only
  and compares characters exactly (case-sensitively).
\<close>

fun replaceFirst :: "string \<Rightarrow> string \<Rightarrow> string \<Rightarrow> string" where
  "replaceFirst pat rep [] = (if pat = [] then rep else [])"
| "replaceFirst pat rep (c # cs) =
     (if startsWith (c # cs) pat then rep @ drop (length pat) (c # cs)
      else c # replaceFirst pat rep cs)"

text \<open>\<^verbatim>\<open>s.replace(/\/$/, "")\<close>: one slash at the very end of the string is removed.\<close>

definition stripTrailingSlash :: "string \<Rightarrow> string" where
  "stripTrailingSlash s = (if endsWith s ''/'' then butlast s else s)"

definition isBlankURL :: "string \<Rightarrow> bool" where
  "isBlankURL u = (u = ''about:blank'')"

definition isChromeURL :: "string \<Rightarrow> bool" where
  "isChromeURL u = (startsWith u ''chrome://'' \<or> startsWith u ''view-source:chrome-search'')"

definition isExtensionURL :: "string \<Rightarrow> bool" where
  "isExtensionURL u = startsWith u ''chrome-extension://''"

definition isBrowserURL :: "string \<Rightarrow> bool" where
  "isBrowserURL u =
     (startsWith u ''about:'' \<or> startsWith u ''chrome://'' \<or>
      startsWith u ''chrome-extension://'')"

text \<open>
  \<^verbatim>\<open>/^(f|ht)tps?:\/\//i\<close>: at the start of the string, \<open>f\<close> or \<open>ht\<close>, then
  \<open>tp\<close>, an optional \<open>s\<close>, then \<open>://\<close>, letters in either case.
\<close>

definition isValidURL :: "string \<Rightarrow> bool" where
  "isValidURL u =
     (let l = toLowerCase u
      in startsWith l ''ftp://'' \<or> startsWith l ''ftps://'' \<or>
         startsWith l ''http://'' \<or> startsWith l ''https://'')"

definition getMatchingURL :: "string \<Rightarrow> string" where
  "getMatchingURL u =
     (if \<not> isValidURL u then u
      else
        (let matchingURL = splitHashFirst u;
             matchingURL = replaceFirst ''://www.'' ''://'' matchingURL;
             matchingURL = toLowerCase matchingURL;
             matchingURL = stripTrailingSlash matchingURL
         in matchingURL))"

section \<open>The per-window debouncer \<^verbatim>\<open>windowBasedDebounce\<close>\<close>

text \<open>
  The closure keeps \<^verbatim>\<open>timers\<close>, a \<^verbatim>\<open>Map\<close> from window id to the id of a pending
  timeout. Every entry stands for exactly one live timeout (each \<^verbatim>\<open>clearTimeout\<close> is
  paired with a \<^verbatim>\<open>delete\<close> or an overwriting \<^verbatim>\<open>set\<close>), so an entry is modelled by
  what the timeout will do: the time it is due and the arguments it will pass on.
\<close>

record timer =
  timer_due :: int
  timer_args :: keepInfo

type_synonym timers = "(int \<times> timer) list"


definition hasPending :: "timers \<Rightarrow> int \<Rightarrow> bool" where
  "hasPending ts wid = (map_of ts wid \<noteq> None)"

text \<open>\<^verbatim>\<open>debounced.cancel(windowId)\<close> returns its boolean and the timers left.\<close>

definition cancel :: "int option \<Rightarrow> timers \<Rightarrow> bool \<times> timers" where
  "cancel windowId ts =
     (case windowId of
        Some wid \<Rightarrow> if hasPending ts wid then (True, AList.delete wid ts) else (False, ts)
      | None \<Rightarrow> (False, ts))"

definition cancelAll :: "timers \<Rightarrow> timers" where
  "cancelAll ts = []"

definition getPendingWindowIds :: "timers \<Rightarrow> int list" where
  "getPendingWindowIds ts = map fst ts"

definition cleanupStaleWindows :: "int list \<Rightarrow> timers \<Rightarrow> timers" where
  "cleanupStaleWindows currentWindowIds ts =
     fold (\<lambda>wid acc. if wid \<notin> set currentWindowIds then snd (cancel (Some wid) acc) else acc)
       (getPendingWindowIds ts) ts"

section \<open>The state of the worker and the browser calls\<close>

text \<open>
  The worker's state: the registry \<^verbatim>\<open>tabsInfo.tabs\<close>, the timers of
  \<^verbatim>\<open>handleRemainingTab\<close>, the clock \<^verbatim>\<open>Date.now()\<close>, and the calls made so far, in
  program order (oldest first): requests to the browser, waits, and writes of the
  ignored flag. An \<^verbatim>\<open>await\<close> is modelled as running through: no other event handler
  is interleaved, a request takes no time, and \<^verbatim>\<open>wait(ms)\<close> advances the clock by
  \<open>ms\<close>.
\<close>

datatype call =
    TabsRemove int
  | Wait int
  | IgnoreTab int bool
  | FocusTab int int

record world =
  w_tabs :: tabsInfo
  w_timers :: timers
  w_now :: int
  w_calls :: "call list"

definition wait :: "int \<Rightarrow> world \<Rightarrow> world" where
  "wait timeout w = w\<lparr>w_now := w_now w + timeout, w_calls := w_calls w @ [Wait timeout]\<rparr>"

definition chromeTabsRemove :: "int \<Rightarrow> world \<Rightarrow> world" where
  "chromeTabsRemove tabId w = w\<lparr>w_calls := w_calls w @ [TabsRemove tabId]\<rparr>"

text \<open>\<^verbatim>\<open>tabsInfo.ignoreTab(tabId, state)\<close> on the worker's state.\<close>

definition ignoreTabW :: "int \<Rightarrow> bool \<Rightarrow> world \<Rightarrow> world" where
  "ignoreTabW tabId state w =
     w\<lparr>w_tabs := ignoreTab (w_now w) tabId state (w_tabs w),
       w_calls := w_calls w @ [IgnoreTab tabId state]\<rparr>"

text \<open>
  \<^verbatim>\<open>focusTab(tabId, windowId)\<close>: both updates are requested; a failure is caught and
  logged by the caller and changes nothing here.
\<close>

definition focusTab :: "int \<Rightarrow> int \<Rightarrow> world \<Rightarrow> world" where
  "focusTab tabId wid w = w\<lparr>w_calls := w_calls w @ [FocusTab tabId wid]\<rparr>"


text \<open>
  The tab a call is about: a flag write and a removal request are about the tab they
  name; a wait and a refocus of the kept tab are about no tab being closed.
\<close>

fun callTab :: "call \<Rightarrow> int option" where
  "callTab (TabsRemove tabId) = Some tabId"
| "callTab (Wait timeout) = None"
| "callTab (IgnoreTab tabId state) = Some tabId"
| "callTab (FocusTab tabId wid) = None"

section \<open>\<^verbatim>\<open>removeTab\<close>: removal with bounded retry\<close>

text \<open>
  What the browser answers is an input: \<open>env tabId n\<close> is
  \<^verbatim>\<open>chrome.runtime.lastError.message\<close> in the callback of the call
  \<^verbatim>\<open>chrome.tabs.remove(tabId)\<close> made with \<^verbatim>\<open>retryCount = n\<close>, and \<open>None\<close> when
  there is no \<^verbatim>\<open>lastError\<close>. The promise settles as \<open>Inr ()\<close> (resolved) or
  \<open>Inl message\<close> (rejected with \<^verbatim>\<open>new Error(message)\<close>).
\<close>

type_synonym removeEnv = "int \<Rightarrow> nat \<Rightarrow> string option"

definition maxRetries :: nat where
  "maxRetries = 2"

definition retryDelay :: int where
  "retryDelay = 50"

text \<open>
  The callback passed to \<^verbatim>\<open>chrome.tabs.remove\<close>. On a transient error with retries
  left it waits and calls \<^verbatim>\<open>removeTab(tabId, retryCount + 1)\<close>, which issues the next
  request and runs this callback again, and settles as that call does.
\<close>

function removeTabCallback ::
  "removeEnv \<Rightarrow> int \<Rightarrow> nat \<Rightarrow> world \<Rightarrow> (string + unit) \<times> world" where
  "removeTabCallback env tabId retryCount w =
     (case env tabId retryCount of
        Some errorMessage \<Rightarrow>
          if includesStr errorMessage ''Tabs cannot be edited right now'' \<and>
             retryCount < maxRetries
          then removeTabCallback env tabId (retryCount + 1)
                 (chromeTabsRemove tabId (wait retryDelay w))
          else (Inl errorMessage, w)
      | None \<Rightarrow> (Inr (), w))"
  by pat_completeness auto
termination
  by (relation "measure (\<lambda>(env, tabId, retryCount, w). maxRetries - retryCount)") auto

definition removeTab :: "removeEnv \<Rightarrow> int \<Rightarrow> nat \<Rightarrow> world \<Rightarrow> (string + unit) \<times> world" where
  "removeTab env tabId retryCount w =
     removeTabCallback env tabId retryCount (chromeTabsRemove tabId w)"

declare removeTabCallback.simps [simp del]

text \<open>
  How a removal settles, and which calls and how much waiting it takes, under given
  answers of the browser: read off the functions above, run on a state with an empty
  registry and no calls. (They do not depend on the state they are run on, lemmas
  \<open>removeTabCallback_eq\<close> and \<open>removeTab_eq\<close> below.)
\<close>

definition idleWorld :: world where
  "idleWorld = \<lparr>w_tabs = [], w_timers = [], w_now = 0, w_calls = []\<rparr>"

definition callbackSettles :: "removeEnv \<Rightarrow> int \<Rightarrow> nat \<Rightarrow> string + unit" where
  "callbackSettles env tabId retryCount = fst (removeTabCallback env tabId retryCount idleWorld)"

definition callbackCalls :: "removeEnv \<Rightarrow> int \<Rightarrow> nat \<Rightarrow> call list" where
  "callbackCalls env tabId retryCount =
     w_calls (snd (removeTabCallback env tabId retryCount idleWorld))"

definition callbackTime :: "removeEnv \<Rightarrow> int \<Rightarrow> nat \<Rightarrow> int" where
  "callbackTime env tabId retryCount =
     w_now (snd (removeTabCallback env tabId retryCount idleWorld))"

definition removeTabSettles :: "removeEnv \<Rightarrow> int \<Rightarrow> string + unit" where
  "removeTabSettles env tabId = fst (removeTab env tabId 0 idleWorld)"

definition removeTabCalls :: "removeEnv \<Rightarrow> int \<Rightarrow> call list" where
  "removeTabCalls env tabId = w_calls (snd (removeTab env tabId 0 idleWorld))"

definition removeTabTime :: "removeEnv \<Rightarrow> int \<Rightarrow> int" where
  "removeTabTime env tabId = w_now (snd (removeTab env tabId 0 idleWorld))"

section \<open>\<^verbatim>\<open>closeDuplicateTab\<close>\<close>


section \<open>\<^verbatim>\<open>TabsInfo.cleanup\<close>\<close>

text \<open>
  \<open>currentTabs\<close> is what \<^verbatim>\<open>getTabs({})\<close> resolved to (\<open>None\<close> for \<^verbatim>\<open>null\<close>, the
  query failed) and \<open>currentWindows\<close> the ids of the windows
  \<^verbatim>\<open>chrome.windows.getAll\<close> reported. The two loops over the registry are the
  source's: the first over the stored ids, the second over the entries left.
\<close>

definition cleanup :: "tab list option \<Rightarrow> int list \<Rightarrow> world \<Rightarrow> world" where
  "cleanup currentTabs currentWindows w =
     (case currentTabs of
        None \<Rightarrow> w
      | Some cts \<Rightarrow>
          (let currentTabIds = map tab_id cts;
               storedTabIds = map fst (w_tabs w);
               tabs1 = fold (\<lambda>tabId tabs.
                          if tabId \<notin> set currentTabIds then AList.delete tabId tabs else tabs)
                        storedTabIds (w_tabs w);
               oneHourAgo = w_now w - 60 * 60 * 1000;
               tabs2 = fold (\<lambda>(tabId, t) tabs.
                          if info_lastAccessed t < oneHourAgo \<and> tabId \<notin> set currentTabIds
                          then AList.delete tabId tabs else tabs)
                        tabs1 tabs1
           in w\<lparr>w_tabs := tabs2,
                 w_timers := cleanupStaleWindows currentWindows (w_timers w)\<rparr>))"

section \<open>The startup pass \<^verbatim>\<open>findAndCloseDuplicatesOnInstall\<close>\<close>

text \<open>\<^verbatim>\<open>tabGroups\<close>: a \<^verbatim>\<open>Map\<close> from matching URL to the tabs with it, in order.\<close>

definition groupTabs :: "tab list \<Rightarrow> (string \<times> tab list) list" where
  "groupTabs allTabs =
     fold (\<lambda>t tabGroups.
             if isBlankURL (tab_url t) \<or> isBrowserURL (tab_url t) then tabGroups
             else
               (let matchingUrl = getMatchingURL (tab_url t)
                in case map_of tabGroups matchingUrl of
                     None \<Rightarrow> AList.update matchingUrl [t] tabGroups
                   | Some ts \<Rightarrow> AList.update matchingUrl (ts @ [t]) tabGroups))
       allTabs []"

text \<open>
  \<^verbatim>\<open>tabs.sort((a, b) => (b.lastAccessed || 0) - (a.lastAccessed || 0))\<close>: a stable
  sort, most recently accessed first, a missing \<^verbatim>\<open>lastAccessed\<close> counting as 0.
\<close>

definition sortByLastAccessed :: "tab list \<Rightarrow> tab list" where
  "sortByLastAccessed ts =
     sort_key (\<lambda>t. - (case tab_lastAccessed t of None \<Rightarrow> 0 | Some v \<Rightarrow> v)) ts"

text \<open>
  The concurrent branch. \<^verbatim>\<open>forEach\<close> sets every flag; \<^verbatim>\<open>map\<close> then starts every
  async closure, and each runs up to its first \<^verbatim>\<open>await\<close>, which issues its removal
  request; the callbacks run afterwards. In the browser the answers arrive in any order
  and one loser's retry wait overlaps the other losers' callbacks; here each loser's
  callback and retries run to their end, in the order of the list. Each touches only its
  own tab's record, so the flags and the calls about one tab do not depend on that
  order; the order among the calls of different losers after the first requests, and
  the clock, do, and the properties below say nothing about them.
\<close>

definition closeConcurrently :: "removeEnv \<Rightarrow> tab list \<Rightarrow> world \<Rightarrow> world" where
  "closeConcurrently env tabsToClose w =
     (let w1 = fold (\<lambda>t. ignoreTabW (tab_id t) True) tabsToClose w;
          w2 = fold (\<lambda>t. chromeTabsRemove (tab_id t)) tabsToClose w1
      in fold (\<lambda>tabToClose w'.
                 case removeTabCallback env (tab_id tabToClose) 0 w' of
                   (Inr u, w'') \<Rightarrow> w''
                 | (Inl error, w'') \<Rightarrow> ignoreTabW (tab_id tabToClose) False w'')
           tabsToClose w2)"

definition closeSequentially :: "removeEnv \<Rightarrow> tab list \<Rightarrow> world \<Rightarrow> world" where
  "closeSequentially env tabsToClose w =
     fold (\<lambda>tabToClose w'.
             (let w1 = ignoreTabW (tab_id tabToClose) True w'
              in case removeTab env (tab_id tabToClose) 0 w1 of
                   (Inr u, w2) \<Rightarrow> wait 25 w2
                 | (Inl error, w2) \<Rightarrow> ignoreTabW (tab_id tabToClose) False w2))
       tabsToClose w"

text \<open>The body of the loop over the groups, for one group \<^verbatim>\<open>[url, tabs]\<close>.\<close>

definition closeGroup :: "removeEnv \<Rightarrow> string \<times> tab list \<Rightarrow> world \<Rightarrow> world" where
  "closeGroup env g w =
     (case sortByLastAccessed (snd g) of
        [] \<Rightarrow> w
      | tabToKeep # tabsToClose \<Rightarrow>
          (let w1 = (if length tabsToClose \<le> 4
                     then closeConcurrently env tabsToClose w
                     else closeSequentially env tabsToClose w)
           in if list_ex tab_active tabsToClose
              then focusTab (tab_id tabToKeep) (tab_windowId tabToKeep) w1
              else w1))"

definition findAndCloseDuplicatesOnInstall ::
  "removeEnv \<Rightarrow> tab list option \<Rightarrow> world \<Rightarrow> world" where
  "findAndCloseDuplicatesOnInstall env allTabs w =
     (case allTabs of
        None \<Rightarrow> w
      | Some ats \<Rightarrow>
          if length ats \<le> 1 then w
          else
            (let urlGroups = filter (\<lambda>(u, ts). length ts > 1) (groupTabs ats)
             in fold (closeGroup env) urlGroups w))"

section \<open>Example data\<close>

text \<open>
  Concrete inputs on which the theorems below are exercised: a tab with a given id,
  window, active flag and position, and a registry entry with a given
  \<^verbatim>\<open>lastComplete\<close>.
\<close>

definition exampleTab :: "int \<Rightarrow> int \<Rightarrow> bool \<Rightarrow> int \<Rightarrow> tab" where
  "exampleTab i w a ix =
     \<lparr>tab_id = i, tab_windowId = w, tab_active = a, tab_index = ix,
      tab_url = ''https://example.com/page'', tab_status = ''complete'',
      tab_lastAccessed = None\<rparr>"

definition exampleInfo :: "int option \<Rightarrow> tabInfo" where
  "exampleInfo lc =
     \<lparr>info_url = Some ''https://example.com/page'', info_lastComplete = lc,
      info_ignored = False, info_lastAccessed = 0\<rparr>"

definition exampleTabs :: tabsInfo where
  "exampleTabs =
     [(1, exampleInfo (Some 10)), (2, exampleInfo (Some 20)), (3, exampleInfo None),
      (4, exampleInfo (Some 10))]"

text \<open>
  A second registry that agrees with \<open>exampleTabs\<close> on the \<^verbatim>\<open>lastComplete\<close> of tabs
  1 and 2 and differs in everything else: order, the other fields, the other tabs.
\<close>

definition exampleTabs2 :: tabsInfo where
  "exampleTabs2 =
     [(2, \<lparr>info_url = None, info_lastComplete = Some 20, info_ignored = True,
           info_lastAccessed = 99\<rparr>),
      (9, exampleInfo (Some 1)),
      (1, \<lparr>info_url = Some ''about:blank'', info_lastComplete = Some 10,
           info_ignored = False, info_lastAccessed = 5\<rparr>)]"

text \<open>
  A worker state over the example registry, more than an hour after the registry's
  entries were last accessed, and answers of the browser to a removal request: the tab
  strip is locked on every attempt, the tab is gone, the tab strip is locked on the first
  two attempts only.
\<close>

definition exampleWorld :: world where
  "exampleWorld = \<lparr>w_tabs = exampleTabs, w_timers = [], w_now = 10000000, w_calls = []\<rparr>"

definition exampleEnvLocked :: removeEnv where
  "exampleEnvLocked tabId n =
     Some ''Tabs cannot be edited right now (user may be dragging a tab).''"

definition exampleEnvGone :: removeEnv where
  "exampleEnvGone tabId n = Some ''No tab with id: 5.''"

definition exampleEnvFlaky :: removeEnv where
  "exampleEnvFlaky tabId n =
     (if n < 2 then Some ''Tabs cannot be edited right now (user may be dragging a tab).''
      else None)"

definition exampleTimers :: timers where
  "exampleTimers =
     [(7, \<lparr>timer_due = 75,
            timer_args = \<lparr>keep_observedTabClosed = True, keep_active = False,
                          keep_tabIndex = 3, keep_tabId = 2, keep_windowId = 7\<rparr>\<rparr>)]"

text \<open>
  Answers that differ per tab: tab 3 is gone, the tab strip is locked on the first two
  attempts for tab 5, every other removal succeeds at once.
\<close>

definition exampleEnvMixed :: removeEnv where
  "exampleEnvMixed tabId n =
     (if tabId = 3 then Some ''No tab with id: 3.''
      else if tabId = 5 \<and> n < 2
      then Some ''Tabs cannot be edited right now (user may be dragging a tab).''
      else None)"



text \<open>
  Tabs of one URL in window 7 with given id, active flag and \<^verbatim>\<open>lastAccessed\<close>, and two
  duplicate groups of them: one with four losers and one with five. Tab 2 is the most
  recently accessed of each.
\<close>

definition exampleTabAt :: "int \<Rightarrow> bool \<Rightarrow> int \<Rightarrow> tab" where
  "exampleTabAt i a la =
     \<lparr>tab_id = i, tab_windowId = 7, tab_active = a, tab_index = i,
      tab_url = ''https://example.com/page'', tab_status = ''complete'',
      tab_lastAccessed = Some la\<rparr>"

definition exampleGroup4 :: "string \<times> tab list" where
  "exampleGroup4 =
     (''https://example.com/page'',
      [exampleTabAt 1 False 10, exampleTabAt 2 False 50, exampleTabAt 3 False 30,
       exampleTabAt 4 True 20, exampleTabAt 5 False 40])"

definition exampleGroup5 :: "string \<times> tab list" where
  "exampleGroup5 =
     (''https://example.com/page'',
      [exampleTabAt 1 False 10, exampleTabAt 2 False 50, exampleTabAt 3 False 30,
       exampleTabAt 4 True 20, exampleTabAt 5 False 40, exampleTabAt 6 False 5])"


section \<open>Properties of the tie-break\<close>

lemma getLastUpdatedTabId_cases:
  "getLastUpdatedTabId tabs observedTab openedTab = tab_id observedTab \<or>
   getLastUpdatedTabId tabs observedTab openedTab = tab_id openedTab"
  by (simp add: getLastUpdatedTabId_def split: option.split)

lemma getFocusedTab_focusPreferred:
  "getFocusedTab observedTab openedTab w r =
     (if r = tab_id observedTab
      then (if focusPreferred openedTab observedTab w
            then tab_id openedTab else tab_id observedTab)
      else (if focusPreferred observedTab openedTab w
            then tab_id observedTab else tab_id openedTab))"
  by (simp add: getFocusedTab_def focusPreferred_def)

lemma keep_tabId_getCloseInfo:
  "keep_tabId (snd (getCloseInfo tabs observedTab openedTab activeWindowId)) =
     (case activeWindowId of
        Some w \<Rightarrow>
          if w \<noteq> 0
          then getFocusedTab observedTab openedTab w
                 (getLastUpdatedTabId tabs observedTab openedTab)
          else getLastUpdatedTabId tabs observedTab openedTab
      | None \<Rightarrow> getLastUpdatedTabId tabs observedTab openedTab)"
  by (simp add: getCloseInfo_def Let_def)

lemma keep_tabId_cases:
  "keep_tabId (snd (getCloseInfo tabs observedTab openedTab activeWindowId)) = tab_id observedTab \<or>
   keep_tabId (snd (getCloseInfo tabs observedTab openedTab activeWindowId)) = tab_id openedTab"
  using getLastUpdatedTabId_cases [of tabs observedTab openedTab]
  by (auto simp: keep_tabId_getCloseInfo getFocusedTab_def split: option.split)

text \<open>
  C1 (as the claim states it, refuted): on a tie, both tabs with the same non-null
  \<^verbatim>\<open>lastComplete\<close>, the claim has \<^verbatim>\<open>getLastUpdatedTabId\<close> return
  \<^verbatim>\<open>observedTab.id\<close>. Tabs 1 and 4 of the example registry both completed at 10;
  with tab 1 observed and tab 4 opened the function returns 4, the opened tab's id.
\<close>

theorem getLastUpdatedTabId_tie_counterexample:
  "getLastComplete exampleTabs (tab_id (exampleTab 1 7 False 0)) = Some 10 \<and>
   getLastComplete exampleTabs (tab_id (exampleTab 4 7 False 1)) = Some 10 \<and>
   getLastUpdatedTabId exampleTabs (exampleTab 1 7 False 0) (exampleTab 4 7 False 1)
     \<noteq> tab_id (exampleTab 1 7 False 0)"
  by (simp add: getLastUpdatedTabId_def getLastComplete_def exampleTabs_def exampleTab_def
      exampleInfo_def)

text \<open>
  C1 (amended): \<^verbatim>\<open>getLastUpdatedTabId(observedTab, openedTab)\<close> returns
  \<^verbatim>\<open>openedTab.id\<close> when the observed tab's \<^verbatim>\<open>lastComplete\<close> is null, returns
  \<^verbatim>\<open>observedTab.id\<close> when only the opened tab's \<^verbatim>\<open>lastComplete\<close> is null, and
  otherwise returns the id of the tab whose \<^verbatim>\<open>lastComplete\<close> is strictly smaller,
  and \<^verbatim>\<open>openedTab.id\<close> on a tie. So the candidate that completed strictly earlier
  is the provisional keeper and a null \<^verbatim>\<open>lastComplete\<close> loses to any non-null one.
\<close>

theorem getLastUpdatedTabId_recency:
  "(getLastComplete tabs (tab_id observedTab) = None \<longrightarrow>
      getLastUpdatedTabId tabs observedTab openedTab = tab_id openedTab) \<and>
   (getLastComplete tabs (tab_id observedTab) \<noteq> None \<and>
    getLastComplete tabs (tab_id openedTab) = None \<longrightarrow>
      getLastUpdatedTabId tabs observedTab openedTab = tab_id observedTab) \<and>
   (\<forall>a b. getLastComplete tabs (tab_id observedTab) = Some a \<and>
          getLastComplete tabs (tab_id openedTab) = Some b \<longrightarrow>
      (a < b \<longrightarrow> getLastUpdatedTabId tabs observedTab openedTab = tab_id observedTab) \<and>
      (b < a \<longrightarrow> getLastUpdatedTabId tabs observedTab openedTab = tab_id openedTab) \<and>
      (a = b \<longrightarrow> getLastUpdatedTabId tabs observedTab openedTab = tab_id openedTab))"
  by (auto simp: getLastUpdatedTabId_def split: option.split)

lemma getLastComplete_exampleTabs:
  "getLastComplete exampleTabs 1 = Some 10"
  "getLastComplete exampleTabs 2 = Some 20"
  "getLastComplete exampleTabs 3 = None"
  "getLastComplete exampleTabs 4 = Some 10"
  by (simp_all add: getLastComplete_def exampleTabs_def exampleInfo_def)

lemma tab_id_exampleTab: "tab_id (exampleTab i w a ix) = i"
  by (simp add: exampleTab_def)

theorem getLastUpdatedTabId_recency_witness:
  "getLastUpdatedTabId exampleTabs (exampleTab 3 7 False 0) (exampleTab 1 7 False 1) = 1 \<and>
   getLastUpdatedTabId exampleTabs (exampleTab 1 7 False 0) (exampleTab 3 7 False 1) = 1 \<and>
   getLastUpdatedTabId exampleTabs (exampleTab 1 7 False 0) (exampleTab 2 7 False 1) = 1 \<and>
   getLastUpdatedTabId exampleTabs (exampleTab 2 7 False 0) (exampleTab 1 7 False 1) = 1 \<and>
   getLastUpdatedTabId exampleTabs (exampleTab 1 7 False 0) (exampleTab 4 7 False 1) = 4"
proof -
  have c1: "getLastUpdatedTabId exampleTabs (exampleTab 3 7 False 0) (exampleTab 1 7 False 1) = 1"
    using getLastUpdatedTabId_recency [of exampleTabs "exampleTab 3 7 False 0" "exampleTab 1 7 False 1"]
    by (simp add: getLastComplete_exampleTabs tab_id_exampleTab)
  have c2: "getLastUpdatedTabId exampleTabs (exampleTab 1 7 False 0) (exampleTab 3 7 False 1) = 1"
    using getLastUpdatedTabId_recency [of exampleTabs "exampleTab 1 7 False 0" "exampleTab 3 7 False 1"]
    by (simp add: getLastComplete_exampleTabs tab_id_exampleTab)
  have c3: "getLastUpdatedTabId exampleTabs (exampleTab 1 7 False 0) (exampleTab 2 7 False 1) = 1"
    using getLastUpdatedTabId_recency [of exampleTabs "exampleTab 1 7 False 0" "exampleTab 2 7 False 1"]
    by (simp add: getLastComplete_exampleTabs tab_id_exampleTab)
  have c4: "getLastUpdatedTabId exampleTabs (exampleTab 2 7 False 0) (exampleTab 1 7 False 1) = 1"
    using getLastUpdatedTabId_recency [of exampleTabs "exampleTab 2 7 False 0" "exampleTab 1 7 False 1"]
    by (simp add: getLastComplete_exampleTabs tab_id_exampleTab)
  have c5: "getLastUpdatedTabId exampleTabs (exampleTab 1 7 False 0) (exampleTab 4 7 False 1) = 4"
    using getLastUpdatedTabId_recency [of exampleTabs "exampleTab 1 7 False 0" "exampleTab 4 7 False 1"]
    by (simp add: getLastComplete_exampleTabs tab_id_exampleTab)
  show ?thesis using c1 c2 c3 c4 c5 by simp
qed

text \<open>
  C2: when the focused window id is known (truthy: not \<^verbatim>\<open>null\<close> and not 0), the
  keeper is decided by the focus condition: a candidate that is in the focused window and
  (is itself active or the other candidate is not in the focused window) becomes the
  keeper when the other candidate does not satisfy the condition, whichever of them the
  recency rule chose; when neither satisfies it the recency-rule keeper stands; when both
  do (both active in the focused window), the candidate the recency rule did not choose
  is the keeper. When the focused window id is unknown (\<^verbatim>\<open>null\<close> or falsy) the
  recency-rule keeper stands unchanged.
\<close>

theorem getCloseInfo_focus_override:
  "(\<forall>w. activeWindowId = Some w \<and> w \<noteq> 0 \<longrightarrow>
      (focusPreferred observedTab openedTab w \<and> \<not> focusPreferred openedTab observedTab w \<longrightarrow>
         keep_tabId (snd (getCloseInfo tabs observedTab openedTab activeWindowId))
           = tab_id observedTab) \<and>
      (focusPreferred openedTab observedTab w \<and> \<not> focusPreferred observedTab openedTab w \<longrightarrow>
         keep_tabId (snd (getCloseInfo tabs observedTab openedTab activeWindowId))
           = tab_id openedTab) \<and>
      (\<not> focusPreferred observedTab openedTab w \<and> \<not> focusPreferred openedTab observedTab w \<longrightarrow>
         keep_tabId (snd (getCloseInfo tabs observedTab openedTab activeWindowId))
           = getLastUpdatedTabId tabs observedTab openedTab) \<and>
      (focusPreferred observedTab openedTab w \<and> focusPreferred openedTab observedTab w \<longrightarrow>
         keep_tabId (snd (getCloseInfo tabs observedTab openedTab activeWindowId))
           = (if getLastUpdatedTabId tabs observedTab openedTab = tab_id observedTab
              then tab_id openedTab else tab_id observedTab))) \<and>
   (activeWindowId = None \<or> activeWindowId = Some 0 \<longrightarrow>
      keep_tabId (snd (getCloseInfo tabs observedTab openedTab activeWindowId))
        = getLastUpdatedTabId tabs observedTab openedTab)"
  using getLastUpdatedTabId_cases [of tabs observedTab openedTab]
  by (auto simp: keep_tabId_getCloseInfo getFocusedTab_focusPreferred)

lemma focusPreferred_exampleTab:
  "focusPreferred (exampleTab i w a ix) (exampleTab i' w' a' ix') v =
     (w = v \<and> (a \<or> w' \<noteq> v))"
  by (simp add: focusPreferred_def exampleTab_def)

lemma getLastUpdatedTabId_exampleTabs_1_2:
  "getLastUpdatedTabId exampleTabs (exampleTab 1 w a ix) (exampleTab 2 w' a' ix') = 1"
  "getLastUpdatedTabId exampleTabs (exampleTab 2 w a ix) (exampleTab 1 w' a' ix') = 1"
  by (simp_all add: getLastUpdatedTabId_def getLastComplete_exampleTabs tab_id_exampleTab)

theorem getCloseInfo_focus_override_witness:
  "keep_tabId (snd (getCloseInfo exampleTabs (exampleTab 2 7 True 0) (exampleTab 1 8 False 1) (Some 7))) = 2 \<and>
   keep_tabId (snd (getCloseInfo exampleTabs (exampleTab 1 7 False 0) (exampleTab 2 7 True 1) (Some 7))) = 2 \<and>
   keep_tabId (snd (getCloseInfo exampleTabs (exampleTab 1 7 False 0) (exampleTab 2 7 False 1) (Some 7))) = 1 \<and>
   keep_tabId (snd (getCloseInfo exampleTabs (exampleTab 1 7 True 0) (exampleTab 2 7 True 1) (Some 7))) = 2 \<and>
   keep_tabId (snd (getCloseInfo exampleTabs (exampleTab 1 7 False 0) (exampleTab 2 7 True 1) None)) = 1 \<and>
   keep_tabId (snd (getCloseInfo exampleTabs (exampleTab 1 7 False 0) (exampleTab 2 7 True 1) (Some 0))) = 1"
proof -
  have c1: "keep_tabId (snd (getCloseInfo exampleTabs (exampleTab 2 7 True 0) (exampleTab 1 8 False 1) (Some 7))) = 2"
    using getCloseInfo_focus_override
      [of "Some 7" "exampleTab 2 7 True 0" "exampleTab 1 8 False 1" exampleTabs]
    by (simp add: focusPreferred_exampleTab tab_id_exampleTab)
  have c2: "keep_tabId (snd (getCloseInfo exampleTabs (exampleTab 1 7 False 0) (exampleTab 2 7 True 1) (Some 7))) = 2"
    using getCloseInfo_focus_override
      [of "Some 7" "exampleTab 1 7 False 0" "exampleTab 2 7 True 1" exampleTabs]
    by (simp add: focusPreferred_exampleTab tab_id_exampleTab)
  have c3: "keep_tabId (snd (getCloseInfo exampleTabs (exampleTab 1 7 False 0) (exampleTab 2 7 False 1) (Some 7))) = 1"
    using getCloseInfo_focus_override
      [of "Some 7" "exampleTab 1 7 False 0" "exampleTab 2 7 False 1" exampleTabs]
    by (simp add: focusPreferred_exampleTab getLastUpdatedTabId_exampleTabs_1_2)
  have c4: "keep_tabId (snd (getCloseInfo exampleTabs (exampleTab 1 7 True 0) (exampleTab 2 7 True 1) (Some 7))) = 2"
    using getCloseInfo_focus_override
      [of "Some 7" "exampleTab 1 7 True 0" "exampleTab 2 7 True 1" exampleTabs]
    by (simp add: focusPreferred_exampleTab getLastUpdatedTabId_exampleTabs_1_2
        tab_id_exampleTab)
  have c5: "keep_tabId (snd (getCloseInfo exampleTabs (exampleTab 1 7 False 0) (exampleTab 2 7 True 1) None)) = 1"
    using getCloseInfo_focus_override
      [of None "exampleTab 1 7 False 0" "exampleTab 2 7 True 1" exampleTabs]
    by (simp add: getLastUpdatedTabId_exampleTabs_1_2)
  have c6: "keep_tabId (snd (getCloseInfo exampleTabs (exampleTab 1 7 False 0) (exampleTab 2 7 True 1) (Some 0))) = 1"
    using getCloseInfo_focus_override
      [of "Some 0" "exampleTab 1 7 False 0" "exampleTab 2 7 True 1" exampleTabs]
    by (simp add: getLastUpdatedTabId_exampleTabs_1_2)
  show ?thesis using c1 c2 c3 c4 c5 c6 by simp
qed

text \<open>
  C3: \<^verbatim>\<open>getCloseInfo\<close> is a total function of its inputs (the model has no failing
  branch, as the source has none) that returns one loser id, the id of one of the two
  candidates, and its result depends on the registry only through the two candidates'
  \<^verbatim>\<open>lastComplete\<close> values: two runs on the same two tabs and the same
  \<^verbatim>\<open>activeWindowId\<close>, with registries that agree on those two values, return the same
  loser id and the same \<^verbatim>\<open>keepInfo\<close>.
\<close>

theorem getCloseInfo_total_deterministic:
  assumes "getLastComplete tabs (tab_id observedTab) = getLastComplete tabs' (tab_id observedTab)"
    and "getLastComplete tabs (tab_id openedTab) = getLastComplete tabs' (tab_id openedTab)"
  shows "getCloseInfo tabs observedTab openedTab activeWindowId
           = getCloseInfo tabs' observedTab openedTab activeWindowId \<and>
         (\<exists>!loser. fst (getCloseInfo tabs observedTab openedTab activeWindowId) = loser \<and>
                   (loser = tab_id observedTab \<or> loser = tab_id openedTab))"
proof -
  have "getLastUpdatedTabId tabs observedTab openedTab
          = getLastUpdatedTabId tabs' observedTab openedTab"
    unfolding getLastUpdatedTabId_def assms by (rule refl)
  then have same: "getCloseInfo tabs observedTab openedTab activeWindowId
           = getCloseInfo tabs' observedTab openedTab activeWindowId"
    by (simp add: getCloseInfo_def)
  have "fst (getCloseInfo tabs observedTab openedTab activeWindowId) = tab_id observedTab \<or>
        fst (getCloseInfo tabs observedTab openedTab activeWindowId) = tab_id openedTab"
    by (simp add: getCloseInfo_def Let_def)
  with same show ?thesis by blast
qed

theorem getCloseInfo_total_deterministic_witness:
  "getCloseInfo exampleTabs (exampleTab 1 7 False 0) (exampleTab 2 7 True 1) (Some 7)
     = getCloseInfo exampleTabs2 (exampleTab 1 7 False 0) (exampleTab 2 7 True 1) (Some 7) \<and>
   (\<exists>!loser. fst (getCloseInfo exampleTabs (exampleTab 1 7 False 0) (exampleTab 2 7 True 1)
                      (Some 7)) = loser \<and>
             (loser = tab_id (exampleTab 1 7 False 0) \<or> loser = tab_id (exampleTab 2 7 True 1)))"
proof -
  have h1: "getLastComplete exampleTabs (tab_id (exampleTab 1 7 False 0))
              = getLastComplete exampleTabs2 (tab_id (exampleTab 1 7 False 0))"
    by (simp add: getLastComplete_def exampleTabs_def exampleTabs2_def exampleInfo_def
        exampleTab_def)
  have h2: "getLastComplete exampleTabs (tab_id (exampleTab 2 7 True 1))
              = getLastComplete exampleTabs2 (tab_id (exampleTab 2 7 True 1))"
    by (simp add: getLastComplete_def exampleTabs_def exampleTabs2_def exampleInfo_def
        exampleTab_def)
  show ?thesis
    by (rule getCloseInfo_total_deterministic [OF h1 h2])
qed

text \<open>
  The decision is a function of the combination the specification enumerates: which
  candidate the recency rule retains, which candidate is active, which is in the focused
  window, and whether the focused window is known. Two inputs that agree on these
  agree on whether the observed tab is the one closed.
\<close>

lemma getCloseInfo_decision_abstraction:
  assumes "tab_id observedTab \<noteq> tab_id openedTab" and "tab_id observedTab' \<noteq> tab_id openedTab'"
    and "(getLastUpdatedTabId tabs observedTab openedTab = tab_id observedTab)
           = (getLastUpdatedTabId tabs' observedTab' openedTab' = tab_id observedTab')"
    and "tab_active observedTab = tab_active observedTab'"
    and "tab_active openedTab = tab_active openedTab'"
    and "w \<noteq> 0" and "w' \<noteq> 0"
    and "(tab_windowId observedTab = w) = (tab_windowId observedTab' = w')"
    and "(tab_windowId openedTab = w) = (tab_windowId openedTab' = w')"
  shows "keep_observedTabClosed (snd (getCloseInfo tabs observedTab openedTab (Some w)))
           = keep_observedTabClosed (snd (getCloseInfo tabs' observedTab' openedTab' (Some w')))"
  using assms by (auto simp: getCloseInfo_def Let_def getFocusedTab_def)

text \<open>
  C10: for two candidates with distinct ids, \<^verbatim>\<open>getCloseInfo\<close> returns as loser the id
  of one of the two tabs and as \<^verbatim>\<open>keepInfo.tabId\<close> the id of the other, never a third
  id and never the same id twice; \<^verbatim>\<open>keepInfo.windowId\<close> is the window of the kept
  tab, \<^verbatim>\<open>keepInfo.active\<close> and \<^verbatim>\<open>keepInfo.tabIndex\<close> are the active flag and the
  position of the closed tab, and \<^verbatim>\<open>observedTabClosed\<close> tells whether the loser is
  the observed tab.
\<close>

theorem getCloseInfo_partition:
  assumes "tab_id observedTab \<noteq> tab_id openedTab"
  shows "(case getCloseInfo tabs observedTab openedTab activeWindowId of
            (tabToCloseId, keep) \<Rightarrow>
              tabToCloseId \<noteq> keep_tabId keep \<and>
              ((tabToCloseId = tab_id observedTab \<and> keep_tabId keep = tab_id openedTab \<and>
                keep_windowId keep = tab_windowId openedTab \<and>
                keep_active keep = tab_active observedTab \<and>
                keep_tabIndex keep = tab_index observedTab \<and>
                keep_observedTabClosed keep) \<or>
               (tabToCloseId = tab_id openedTab \<and> keep_tabId keep = tab_id observedTab \<and>
                keep_windowId keep = tab_windowId observedTab \<and>
                keep_active keep = tab_active openedTab \<and>
                keep_tabIndex keep = tab_index openedTab \<and>
                \<not> keep_observedTabClosed keep)))"
proof -
  let ?k = "keep_tabId (snd (getCloseInfo tabs observedTab openedTab activeWindowId))"
  have "?k = tab_id observedTab \<or> ?k = tab_id openedTab"
    by (rule keep_tabId_cases)
  then show ?thesis
  proof
    assume "?k = tab_id observedTab"
    then show ?thesis
      using assms by (simp add: getCloseInfo_def Let_def split: prod.split)
  next
    assume "?k = tab_id openedTab"
    then show ?thesis
      using assms by (simp add: getCloseInfo_def Let_def split: prod.split)
  qed
qed

theorem getCloseInfo_partition_witness:
  "tab_id (exampleTab 1 7 False 3) \<noteq> tab_id (exampleTab 2 8 True 5) \<and>
   getCloseInfo exampleTabs (exampleTab 1 7 False 3) (exampleTab 2 8 True 5) (Some 8)
     = (1, \<lparr>keep_observedTabClosed = True, keep_active = False, keep_tabIndex = 3,
            keep_tabId = 2, keep_windowId = 8\<rparr>)"
proof -
  have h: "tab_id (exampleTab 1 7 False 3) \<noteq> tab_id (exampleTab 2 8 True 5)"
    by (simp add: exampleTab_def)
  have k: "keep_tabId (snd (getCloseInfo exampleTabs (exampleTab 1 7 False 3)
             (exampleTab 2 8 True 5) (Some 8))) = 2"
    by (simp add: keep_tabId_getCloseInfo getFocusedTab_def exampleTab_def)
  obtain l kp where e: "getCloseInfo exampleTabs (exampleTab 1 7 False 3)
      (exampleTab 2 8 True 5) (Some 8) = (l, kp)"
    by (cases "getCloseInfo exampleTabs (exampleTab 1 7 False 3) (exampleTab 2 8 True 5) (Some 8)")
  from k e have k': "keep_tabId kp = 2" by simp
  from getCloseInfo_partition [OF h, of exampleTabs "Some 8"] e k'
  have "l = 1 \<and> keep_windowId kp = 8 \<and> keep_active kp = False \<and> keep_tabIndex kp = 3
        \<and> keep_observedTabClosed kp \<and> keep_tabId kp = 2"
    by (simp add: exampleTab_def)
  then have "(l, kp) = (1, \<lparr>keep_observedTabClosed = True, keep_active = False,
      keep_tabIndex = 3, keep_tabId = 2, keep_windowId = 8\<rparr>)"
    by (cases kp) simp
  with h e show ?thesis by simp
qed

section \<open>Properties of the matching URL\<close>

text \<open>
  C4 (as the claim states it, refuted): the three variants do not produce one key.
  \<^verbatim>\<open>getMatchingURL\<close> keeps the protocol, so the \<open>https\<close> and the \<open>http\<close> variant
  differ.
\<close>

theorem getMatchingURL_variants_counterexample:
  "\<not> (getMatchingURL ''https://WWW.Example.com/a/'' = getMatchingURL ''https://example.com/a'' \<and>
      getMatchingURL ''https://example.com/a'' = getMatchingURL ''http://example.com/a'')"
  by (simp add: getMatchingURL_def isValidURL_def toLowerCase_def toLowerChar_def startsWith_def
      splitHashFirst_def stripTrailingSlash_def endsWith_def)

text \<open>
  C4 (amended): the protocol is a component of the key. Under one protocol the variants
  \<open>https://www.Example.com/a/\<close>, \<open>https://example.com/a\<close> and
  \<open>https://Example.com/a#top\<close> produce the same key \<open>https://example.com/a\<close>
  (fragment stripped, a leading \<open>www.\<close> host label stripped, lower-cased, one trailing
  slash stripped), and the \<open>http\<close> variants \<open>http://example.com/a\<close> and
  \<open>http://www.Example.com/a/\<close> produce the different key \<open>http://example.com/a\<close>.
\<close>

theorem getMatchingURL_variants:
  "getMatchingURL ''https://www.Example.com/a/'' = ''https://example.com/a'' \<and>
   getMatchingURL ''https://example.com/a'' = ''https://example.com/a'' \<and>
   getMatchingURL ''https://Example.com/a#top'' = ''https://example.com/a'' \<and>
   getMatchingURL ''http://example.com/a'' = ''http://example.com/a'' \<and>
   getMatchingURL ''http://www.Example.com/a/'' = ''http://example.com/a''"
  by (simp add: getMatchingURL_def isValidURL_def toLowerCase_def toLowerChar_def startsWith_def
      splitHashFirst_def stripTrailingSlash_def endsWith_def)

text \<open>
  The \<open>www.\<close> label is removed before the string is lower-cased and the replacement
  compares exactly, so an upper-case \<open>WWW.\<close> stays in the key.
\<close>

lemma getMatchingURL_uppercase_www:
  "getMatchingURL ''https://WWW.Example.com/a/'' = ''https://www.example.com/a''"
  by (simp add: getMatchingURL_def isValidURL_def toLowerCase_def toLowerChar_def startsWith_def
      splitHashFirst_def stripTrailingSlash_def endsWith_def)

section \<open>Properties of the debouncer\<close>

lemma hasPending_delete: "\<not> hasPending (AList.delete wid ts) wid"
  by (simp add: hasPending_def AList.delete_conv')

text \<open>
  C9: \<^verbatim>\<open>cancel(windowId)\<close> returns true and removes the pending timer of that window,
  leaving the other windows' timers alone, when a timer is pending for the window; it
  returns false and changes nothing when none is pending or the window id is
  \<^verbatim>\<open>null\<close>; a second consecutive cancel for the same window always returns false.
\<close>

theorem cancel_idempotent:
  "(\<forall>wid. windowId = Some wid \<and> hasPending ts wid \<longrightarrow>
      fst (cancel windowId ts) = True \<and>
      \<not> hasPending (snd (cancel windowId ts)) wid \<and>
      (\<forall>other. other \<noteq> wid \<longrightarrow>
         map_of (snd (cancel windowId ts)) other = map_of ts other)) \<and>
   (windowId = None \<or> (\<exists>wid. windowId = Some wid \<and> \<not> hasPending ts wid) \<longrightarrow>
      cancel windowId ts = (False, ts)) \<and>
   fst (cancel windowId (snd (cancel windowId ts))) = False"
  by (auto simp: cancel_def hasPending_delete AList.delete_conv' split: option.split)

theorem cancel_idempotent_witness:
  "fst (cancel (Some 7) exampleTimers) = True \<and>
   \<not> hasPending (snd (cancel (Some 7) exampleTimers)) 7 \<and>
   cancel (Some 8) exampleTimers = (False, exampleTimers) \<and>
   cancel None exampleTimers = (False, exampleTimers) \<and>
   fst (cancel (Some 7) (snd (cancel (Some 7) exampleTimers))) = False"
proof -
  have p7: "hasPending exampleTimers 7" and p8: "\<not> hasPending exampleTimers 8"
    by (simp_all add: hasPending_def exampleTimers_def)
  have c1: "fst (cancel (Some 7) exampleTimers) = True \<and>
            \<not> hasPending (snd (cancel (Some 7) exampleTimers)) 7"
    using cancel_idempotent [of "Some 7" exampleTimers] p7 by simp
  have c2: "cancel (Some 8) exampleTimers = (False, exampleTimers)"
    using cancel_idempotent [of "Some 8" exampleTimers] p8 by simp
  have c3: "cancel None exampleTimers = (False, exampleTimers)"
    using cancel_idempotent [of None exampleTimers] by simp
  have c4: "fst (cancel (Some 7) (snd (cancel (Some 7) exampleTimers))) = False"
    using cancel_idempotent [of "Some 7" exampleTimers] by simp
  show ?thesis using c1 c2 c3 c4 by simp
qed

section \<open>Properties of the registry's cleanup\<close>

lemma map_of_fold_delete:
  "map_of (fold (\<lambda>k m. if P k then AList.delete k m else m) ks m) x =
     (if x \<in> set ks \<and> P x then None else map_of m x)"
  by (induction ks arbitrary: m) (auto simp: AList.delete_conv')

lemma map_of_fold_delete_entries:
  "map_of (fold (\<lambda>(k, t) m. if Q k t then AList.delete k m else m) ps m) x =
     (if \<exists>t. (x, t) \<in> set ps \<and> Q x t then None else map_of m x)"
  by (induction ps arbitrary: m) (auto simp: AList.delete_conv')

lemma cleanup_None: "cleanup None currentWindows w = w"
  by (simp add: cleanup_def)

lemma map_of_cleanup:
  "map_of (w_tabs (cleanup (Some cts) currentWindows w)) k = map_of (w_tabs w) k \<or>
   (map_of (w_tabs (cleanup (Some cts) currentWindows w)) k = None \<and> k \<notin> tab_id ` set cts)"
  by (auto simp: cleanup_def Let_def map_of_fold_delete map_of_fold_delete_entries)

text \<open>
  C8: when \<^verbatim>\<open>cleanup()\<close> has fetched its snapshot, every record whose id is in the
  snapshot is in the registry afterwards exactly as before (whatever its
  \<^verbatim>\<open>lastAccessed\<close>), and a record that differs afterwards has been deleted and its id
  is absent from the snapshot.
\<close>

theorem cleanup_keeps_present:
  assumes "currentTabs = Some cts"
  shows "(\<forall>tabId \<in> tab_id ` set cts.
            map_of (w_tabs (cleanup currentTabs currentWindows w)) tabId
              = map_of (w_tabs w) tabId) \<and>
         (\<forall>k. map_of (w_tabs (cleanup currentTabs currentWindows w)) k \<noteq> map_of (w_tabs w) k
               \<longrightarrow> map_of (w_tabs (cleanup currentTabs currentWindows w)) k = None \<and>
                   k \<notin> tab_id ` set cts)"
proof -
  have k: "map_of (w_tabs (cleanup currentTabs currentWindows w)) k = map_of (w_tabs w) k \<or>
     (map_of (w_tabs (cleanup currentTabs currentWindows w)) k = None \<and> k \<notin> tab_id ` set cts)"
    for k
    unfolding assms by (rule map_of_cleanup)
  show ?thesis
  proof (intro conjI ballI allI impI)
    fix tabId assume "tabId \<in> tab_id ` set cts"
    with k [of tabId]
    show "map_of (w_tabs (cleanup currentTabs currentWindows w)) tabId = map_of (w_tabs w) tabId"
      by blast
  next
    fix j assume "map_of (w_tabs (cleanup currentTabs currentWindows w)) j \<noteq> map_of (w_tabs w) j"
    with k [of j] show "map_of (w_tabs (cleanup currentTabs currentWindows w)) j = None"
      by blast
  next
    fix j assume "map_of (w_tabs (cleanup currentTabs currentWindows w)) j \<noteq> map_of (w_tabs w) j"
    with k [of j] show "j \<notin> tab_id ` set cts"
      by blast
  qed
qed

theorem cleanup_keeps_present_witness:
  "map_of (w_tabs (cleanup (Some [exampleTab 1 7 True 0, exampleTab 2 7 False 1]) [7]
      exampleWorld)) 1 = Some (exampleInfo (Some 10)) \<and>
   info_lastAccessed (exampleInfo (Some 10)) < w_now exampleWorld - 60 * 60 * 1000 \<and>
   map_of (w_tabs (cleanup (Some [exampleTab 1 7 True 0, exampleTab 2 7 False 1]) [7]
      exampleWorld)) 3 = None \<and>
   3 \<notin> tab_id ` set [exampleTab 1 7 True 0, exampleTab 2 7 False 1]"
proof -
  let ?cts = "[exampleTab 1 7 True 0, exampleTab 2 7 False 1]"
  note inst = cleanup_keeps_present [OF refl, of ?cts "[7]" exampleWorld]
  have in1: "1 \<in> tab_id ` set ?cts"
    by (simp add: exampleTab_def)
  have before1: "map_of (w_tabs exampleWorld) 1 = Some (exampleInfo (Some 10))"
    by (simp add: exampleWorld_def exampleTabs_def)
  have "map_of (w_tabs (cleanup (Some ?cts) [7] exampleWorld)) 1
          = map_of (w_tabs exampleWorld) 1"
    using inst [THEN conjunct1] in1 by (rule bspec)
  with before1 have c1: "map_of (w_tabs (cleanup (Some ?cts) [7] exampleWorld)) 1
              = Some (exampleInfo (Some 10))"
    by (rule subst)
  have idle: "info_lastAccessed (exampleInfo (Some 10)) < w_now exampleWorld - 60 * 60 * 1000"
    by (simp add: exampleInfo_def exampleWorld_def)
  have changed: "map_of (w_tabs (cleanup (Some ?cts) [7] exampleWorld)) 3
                   \<noteq> map_of (w_tabs exampleWorld) 3"
    by (simp add: cleanup_def Let_def exampleWorld_def exampleTabs_def exampleTab_def)
  have c3: "map_of (w_tabs (cleanup (Some ?cts) [7] exampleWorld)) 3 = None \<and>
            3 \<notin> tab_id ` set ?cts"
    using inst changed by blast
  show ?thesis using c1 idle c3 by simp
qed

section \<open>Properties of \<^verbatim>\<open>removeTab\<close>\<close>

text \<open>
  The calls the callback adds: some number of rounds, at most the retries left, each a
  wait of \<^verbatim>\<open>retryDelay\<close> followed by a new removal request.
\<close>

lemma removeTabCallback_calls:
  "\<exists>n\<le>maxRetries - retryCount.
     w_calls (snd (removeTabCallback env tabId retryCount w)) =
       w_calls w @ concat (replicate n [Wait retryDelay, TabsRemove tabId])"
proof (induction env tabId retryCount w rule: removeTabCallback.induct)
  case (1 env tabId retryCount w)
  show ?case
  proof (cases "env tabId retryCount")
    case None
    then show ?thesis by (intro exI [of _ 0]) (simp add: removeTabCallback.simps)
  next
    case (Some errorMessage)
    show ?thesis
    proof (cases "includesStr errorMessage ''Tabs cannot be edited right now'' \<and>
                  retryCount < maxRetries")
      case False
      with Some show ?thesis
        by (intro exI [of _ 0]) (auto simp: removeTabCallback.simps [of env tabId retryCount])
    next
      case True
      from "1.IH" [OF Some True] obtain n where
        n: "n \<le> maxRetries - (retryCount + 1)"
        and c: "w_calls (snd (removeTabCallback env tabId (retryCount + 1)
                 (chromeTabsRemove tabId (wait retryDelay w)))) =
               w_calls (chromeTabsRemove tabId (wait retryDelay w)) @
               concat (replicate n [Wait retryDelay, TabsRemove tabId])"
        by blast
      from True have lt: "retryCount < maxRetries" by simp
      have "Suc n \<le> maxRetries - retryCount" using n lt by arith
      moreover have "w_calls (snd (removeTabCallback env tabId retryCount w)) =
          w_calls w @ concat (replicate (Suc n) [Wait retryDelay, TabsRemove tabId])"
        using Some True c
        by (simp add: removeTabCallback.simps [of env tabId retryCount] chromeTabsRemove_def
            wait_def)
      ultimately show ?thesis by blast
    qed
  qed
qed

lemma removeTab_calls:
  "\<exists>n\<le>2. w_calls (snd (removeTab env tabId 0 w)) =
       w_calls w @ TabsRemove tabId # concat (replicate n [Wait 50, TabsRemove tabId])"
  using removeTabCallback_calls [of 0 env tabId "chromeTabsRemove tabId w"]
  by (simp add: removeTab_def maxRetries_def retryDelay_def chromeTabsRemove_def)

lemma includesStr_locked:
  "includesStr ''Tabs cannot be edited right now (user may be dragging a tab).''
     ''Tabs cannot be edited right now''"
  by (simp add: startsWith_def)

lemma includesStr_gone:
  "\<not> includesStr ''No tab with id: 5.'' ''Tabs cannot be edited right now''"
  by (simp add: startsWith_def)

text \<open>
  C6: \<^verbatim>\<open>removeTab(tabId)\<close> is a total function (its recursion terminates: the
  retries left decrease) and makes at most 3 removal requests, each after the first
  preceded by a wait of 50 ms. A failure whose message does not contain the transient
  marker rejects at once with that message; a transient failure with fewer than 2
  retries made is retried after the wait; a failure of the third attempt rejects, transient or
  not; an attempt without error resolves.
\<close>

theorem removeTab_bounded_retry:
  "(\<exists>n\<le>2. w_calls (snd (removeTab env tabId 0 w)) =
       w_calls w @ TabsRemove tabId # concat (replicate n [Wait 50, TabsRemove tabId])) \<and>
   (\<forall>msg. env tabId retryCount = Some msg \<and>
          \<not> includesStr msg ''Tabs cannot be edited right now'' \<longrightarrow>
      removeTab env tabId retryCount w = (Inl msg, chromeTabsRemove tabId w)) \<and>
   (\<forall>msg. env tabId retryCount = Some msg \<and>
          includesStr msg ''Tabs cannot be edited right now'' \<and> retryCount < 2 \<longrightarrow>
      removeTab env tabId retryCount w
        = removeTab env tabId (retryCount + 1) (wait 50 (chromeTabsRemove tabId w))) \<and>
   (\<forall>msg. env tabId retryCount = Some msg \<and> 2 \<le> retryCount \<longrightarrow>
      removeTab env tabId retryCount w = (Inl msg, chromeTabsRemove tabId w)) \<and>
   (env tabId retryCount = None \<longrightarrow>
      removeTab env tabId retryCount w = (Inr (), chromeTabsRemove tabId w))"
proof (intro conjI allI impI)
  show "\<exists>n\<le>2. w_calls (snd (removeTab env tabId 0 w)) =
       w_calls w @ TabsRemove tabId # concat (replicate n [Wait 50, TabsRemove tabId])"
    by (rule removeTab_calls)
next
  fix msg
  assume "env tabId retryCount = Some msg \<and>
          \<not> includesStr msg ''Tabs cannot be edited right now''"
  then show "removeTab env tabId retryCount w = (Inl msg, chromeTabsRemove tabId w)"
    by (simp add: removeTab_def removeTabCallback.simps [of env tabId retryCount])
next
  fix msg
  assume "env tabId retryCount = Some msg \<and>
          includesStr msg ''Tabs cannot be edited right now'' \<and> retryCount < 2"
  then show "removeTab env tabId retryCount w
        = removeTab env tabId (retryCount + 1) (wait 50 (chromeTabsRemove tabId w))"
    by (simp add: removeTab_def maxRetries_def retryDelay_def
        removeTabCallback.simps [of env tabId retryCount])
next
  fix msg
  assume "env tabId retryCount = Some msg \<and> 2 \<le> retryCount"
  then show "removeTab env tabId retryCount w = (Inl msg, chromeTabsRemove tabId w)"
    by (simp add: removeTab_def maxRetries_def removeTabCallback.simps [of env tabId retryCount])
next
  assume "env tabId retryCount = None"
  then show "removeTab env tabId retryCount w = (Inr (), chromeTabsRemove tabId w)"
    by (simp add: removeTab_def removeTabCallback.simps [of env tabId retryCount])
qed

theorem removeTab_bounded_retry_witness:
  "removeTab exampleEnvLocked 5 0 exampleWorld =
     (Inl ''Tabs cannot be edited right now (user may be dragging a tab).'',
      exampleWorld\<lparr>w_now := 10000100,
                    w_calls := [TabsRemove 5, Wait 50, TabsRemove 5, Wait 50, TabsRemove 5]\<rparr>) \<and>
   removeTab exampleEnvGone 5 0 exampleWorld =
     (Inl ''No tab with id: 5.'', exampleWorld\<lparr>w_calls := [TabsRemove 5]\<rparr>) \<and>
   removeTab exampleEnvFlaky 5 0 exampleWorld =
     (Inr (),
      exampleWorld\<lparr>w_now := 10000100,
                    w_calls := [TabsRemove 5, Wait 50, TabsRemove 5, Wait 50, TabsRemove 5]\<rparr>)"
proof -
  let ?w1 = "wait 50 (chromeTabsRemove 5 exampleWorld)"
  let ?w2 = "wait 50 (chromeTabsRemove 5 ?w1)"
  have final: "chromeTabsRemove 5 ?w2 =
      exampleWorld\<lparr>w_now := 10000100,
                    w_calls := [TabsRemove 5, Wait 50, TabsRemove 5, Wait 50, TabsRemove 5]\<rparr>"
    by (simp add: chromeTabsRemove_def wait_def exampleWorld_def)
  have l0: "removeTab exampleEnvLocked 5 0 exampleWorld = removeTab exampleEnvLocked 5 1 ?w1"
    using removeTab_bounded_retry
      [where env = exampleEnvLocked and tabId = 5 and retryCount = 0 and w = exampleWorld]
    by (simp add: exampleEnvLocked_def includesStr_locked del: includesStr.simps)
  have l1: "removeTab exampleEnvLocked 5 1 ?w1 = removeTab exampleEnvLocked 5 2 ?w2"
    using removeTab_bounded_retry
      [where env = exampleEnvLocked and tabId = 5 and retryCount = 1 and w = ?w1]
    by (simp add: exampleEnvLocked_def includesStr_locked numeral_2_eq_2
        del: includesStr.simps)
  have l2: "removeTab exampleEnvLocked 5 2 ?w2 =
      (Inl ''Tabs cannot be edited right now (user may be dragging a tab).'',
       chromeTabsRemove 5 ?w2)"
    using removeTab_bounded_retry
      [where env = exampleEnvLocked and tabId = 5 and retryCount = 2 and w = ?w2]
    by (simp add: exampleEnvLocked_def)
  have g0: "removeTab exampleEnvGone 5 0 exampleWorld =
      (Inl ''No tab with id: 5.'', chromeTabsRemove 5 exampleWorld)"
    using removeTab_bounded_retry
      [where env = exampleEnvGone and tabId = 5 and retryCount = 0 and w = exampleWorld]
    by (simp add: exampleEnvGone_def includesStr_gone del: includesStr.simps)
  have f0: "removeTab exampleEnvFlaky 5 0 exampleWorld = removeTab exampleEnvFlaky 5 1 ?w1"
    using removeTab_bounded_retry
      [where env = exampleEnvFlaky and tabId = 5 and retryCount = 0 and w = exampleWorld]
    by (simp add: exampleEnvFlaky_def includesStr_locked del: includesStr.simps)
  have f1: "removeTab exampleEnvFlaky 5 1 ?w1 = removeTab exampleEnvFlaky 5 2 ?w2"
    using removeTab_bounded_retry
      [where env = exampleEnvFlaky and tabId = 5 and retryCount = 1 and w = ?w1]
    by (simp add: exampleEnvFlaky_def includesStr_locked numeral_2_eq_2
        del: includesStr.simps)
  have f2: "removeTab exampleEnvFlaky 5 2 ?w2 = (Inr (), chromeTabsRemove 5 ?w2)"
    using removeTab_bounded_retry
      [where env = exampleEnvFlaky and tabId = 5 and retryCount = 2 and w = ?w2]
    by (simp add: exampleEnvFlaky_def)
  have g: "chromeTabsRemove 5 exampleWorld = exampleWorld\<lparr>w_calls := [TabsRemove 5]\<rparr>"
    by (simp add: chromeTabsRemove_def exampleWorld_def)
  show ?thesis
    using l0 l1 l2 g0 f0 f1 f2 final g by simp
qed

section \<open>How a removal settles does not depend on the state\<close>

lemma removeTabCallback_uniform:
  "\<exists>r cs d. \<forall>w'. removeTabCallback env tabId retryCount w' =
      (r, w'\<lparr>w_now := w_now w' + d, w_calls := w_calls w' @ cs\<rparr>)"
proof (induction "maxRetries - retryCount" arbitrary: retryCount)
  case 0
  then have "\<not> retryCount < maxRetries" by simp
  then have "\<forall>w'. removeTabCallback env tabId retryCount w' =
      (case env tabId retryCount of None \<Rightarrow> Inr () | Some errorMessage \<Rightarrow> Inl errorMessage,
       w'\<lparr>w_now := w_now w' + 0, w_calls := w_calls w' @ []\<rparr>)"
    by (subst removeTabCallback.simps) (simp split: option.split del: removeTabCallback.simps)
  then show ?case by blast
next
  case (Suc k)
  show ?case
  proof (cases "\<exists>errorMessage. env tabId retryCount = Some errorMessage \<and>
                  includesStr errorMessage ''Tabs cannot be edited right now'' \<and>
                  retryCount < maxRetries")
    case False
    then have "\<forall>w'. removeTabCallback env tabId retryCount w' =
      (case env tabId retryCount of None \<Rightarrow> Inr () | Some errorMessage \<Rightarrow> Inl errorMessage,
       w'\<lparr>w_now := w_now w' + 0, w_calls := w_calls w' @ []\<rparr>)"
      by (subst removeTabCallback.simps) (auto split: option.split simp del: removeTabCallback.simps)
    then show ?thesis by blast
  next
    case True
    then obtain errorMessage where e: "env tabId retryCount = Some errorMessage"
      and t: "includesStr errorMessage ''Tabs cannot be edited right now''"
      and lt: "retryCount < maxRetries"
      by blast
    from Suc.hyps(2) lt have "k = maxRetries - (retryCount + 1)" by arith
    from Suc.hyps(1) [OF this] obtain r cs d where
      ih: "\<And>w'. removeTabCallback env tabId (retryCount + 1) w' =
             (r, w'\<lparr>w_now := w_now w' + d, w_calls := w_calls w' @ cs\<rparr>)"
      by blast
    have "\<forall>w'. removeTabCallback env tabId retryCount w' =
      (r, w'\<lparr>w_now := w_now w' + (retryDelay + d),
              w_calls := w_calls w' @ ([Wait retryDelay, TabsRemove tabId] @ cs)\<rparr>)"
    proof
      fix w'
      have "removeTabCallback env tabId retryCount w' =
          removeTabCallback env tabId (retryCount + 1)
            (chromeTabsRemove tabId (wait retryDelay w'))"
        using e t lt by (subst removeTabCallback.simps) (simp del: removeTabCallback.simps)
      also have "\<dots> = (r, w'\<lparr>w_now := w_now w' + (retryDelay + d),
              w_calls := w_calls w' @ ([Wait retryDelay, TabsRemove tabId] @ cs)\<rparr>)"
        unfolding ih by (simp add: chromeTabsRemove_def wait_def)
      finally show "removeTabCallback env tabId retryCount w' =
        (r, w'\<lparr>w_now := w_now w' + (retryDelay + d),
                w_calls := w_calls w' @ ([Wait retryDelay, TabsRemove tabId] @ cs)\<rparr>)" .
    qed
    then show ?thesis by blast
  qed
qed

lemma removeTabCallback_eq:
  "removeTabCallback env tabId retryCount w =
     (callbackSettles env tabId retryCount,
      w\<lparr>w_now := w_now w + callbackTime env tabId retryCount,
        w_calls := w_calls w @ callbackCalls env tabId retryCount\<rparr>)"
proof -
  obtain r cs d where u: "\<And>w'. removeTabCallback env tabId retryCount w' =
      (r, w'\<lparr>w_now := w_now w' + d, w_calls := w_calls w' @ cs\<rparr>)"
    using removeTabCallback_uniform [of env tabId retryCount] by blast
  have "callbackSettles env tabId retryCount = r" "callbackTime env tabId retryCount = d"
    "callbackCalls env tabId retryCount = cs"
    unfolding callbackSettles_def callbackTime_def callbackCalls_def u
    by (simp_all add: idleWorld_def)
  with u [of w] show ?thesis by (simp del: removeTabCallback.simps)
qed

lemma removeTab_callback_conv:
  "removeTabSettles env tabId = callbackSettles env tabId 0"
  "removeTabCalls env tabId = TabsRemove tabId # callbackCalls env tabId 0"
  "removeTabTime env tabId = callbackTime env tabId 0"
  by (simp_all add: removeTabSettles_def removeTabCalls_def removeTabTime_def removeTab_def
      removeTabCallback_eq chromeTabsRemove_def idleWorld_def del: removeTabCallback.simps)

lemma removeTab_eq:
  "removeTab env tabId 0 w =
     (removeTabSettles env tabId,
      w\<lparr>w_now := w_now w + removeTabTime env tabId,
        w_calls := w_calls w @ removeTabCalls env tabId\<rparr>)"
  by (simp add: removeTab_callback_conv removeTab_def removeTabCallback_eq chromeTabsRemove_def
      del: removeTabCallback.simps)

lemma fst_removeTab: "fst (removeTab env tabId 0 w) = removeTabSettles env tabId"
  by (simp add: removeTab_eq)

lemma set_callbackCalls:
  "set (callbackCalls env tabId retryCount) \<subseteq> {Wait retryDelay, TabsRemove tabId}"
proof -
  obtain n where "w_calls (snd (removeTabCallback env tabId retryCount idleWorld)) =
       w_calls idleWorld @ concat (replicate n [Wait retryDelay, TabsRemove tabId])"
    using removeTabCallback_calls [of retryCount env tabId idleWorld] by blast
  then have "callbackCalls env tabId retryCount
               = concat (replicate n [Wait retryDelay, TabsRemove tabId])"
    by (simp add: callbackCalls_def idleWorld_def del: removeTabCallback.simps)
  then show ?thesis by (auto simp del: removeTabCallback.simps)
qed

lemma hasTab_ignoreTab: "hasTab (ignoreTab now tabId state tabs) k = hasTab tabs k"
  by (auto simp: hasTab_def ignoreTab_def AList.update_conv' split: option.split)

lemma isIgnoredTab_ignoreTab:
  "isIgnoredTab (ignoreTab now tabId state tabs) k =
     (if k = tabId \<and> hasTab tabs tabId then state else isIgnoredTab tabs k)"
  by (auto simp: isIgnoredTab_def hasTab_def ignoreTab_def AList.update_conv' split: option.split)


lemma closeSequentially_Nil: "closeSequentially env [] w = w"
  by (simp add: closeSequentially_def)

lemma closeSequentially_Cons:
  "closeSequentially env (t # ts) w =
     closeSequentially env ts
       (case removeTabSettles env (tab_id t) of
          Inr u \<Rightarrow>
            wait 25
              (w\<lparr>w_tabs := ignoreTab (w_now w) (tab_id t) True (w_tabs w),
                 w_now := w_now w + removeTabTime env (tab_id t),
                 w_calls := w_calls w @ IgnoreTab (tab_id t) True
                              # removeTabCalls env (tab_id t)\<rparr>)
        | Inl error \<Rightarrow>
            ignoreTabW (tab_id t) False
              (w\<lparr>w_tabs := ignoreTab (w_now w) (tab_id t) True (w_tabs w),
                 w_now := w_now w + removeTabTime env (tab_id t),
                 w_calls := w_calls w @ IgnoreTab (tab_id t) True
                              # removeTabCalls env (tab_id t)\<rparr>))"
  by (simp add: closeSequentially_def Let_def removeTab_eq ignoreTabW_def split: sum.split)

lemma closeSequentially_calls:
  "w_calls (closeSequentially env ts w) =
     w_calls w @
     concat (map (\<lambda>t. IgnoreTab (tab_id t) True # removeTabCalls env (tab_id t) @
                       [if removeTabSettles env (tab_id t) = Inr () then Wait 25
                        else IgnoreTab (tab_id t) False]) ts)"
proof (induction ts arbitrary: w)
  case Nil
  show ?case by (simp add: closeSequentially_Nil)
next
  case (Cons t ts)
  show ?case
    by (cases "removeTabSettles env (tab_id t)")
       (simp_all add: closeSequentially_Cons Cons.IH wait_def ignoreTabW_def)
qed

lemma closeSequentially_hasTab:
  "hasTab (w_tabs (closeSequentially env ts w)) k = hasTab (w_tabs w) k"
proof (induction ts arbitrary: w)
  case Nil
  show ?case by (simp add: closeSequentially_Nil)
next
  case (Cons t ts)
  show ?case
    by (cases "removeTabSettles env (tab_id t)")
       (simp_all add: closeSequentially_Cons Cons.IH wait_def ignoreTabW_def hasTab_ignoreTab)
qed


lemma fold_ignoreTabW_calls:
  "w_calls (fold (\<lambda>t. ignoreTabW (tab_id t) True) ts w) =
     w_calls w @ map (\<lambda>t. IgnoreTab (tab_id t) True) ts"
  by (induction ts arbitrary: w) (simp_all add: ignoreTabW_def)

lemma fold_ignoreTabW_hasTab:
  "hasTab (w_tabs (fold (\<lambda>t. ignoreTabW (tab_id t) True) ts w)) k = hasTab (w_tabs w) k"
  by (induction ts arbitrary: w) (simp_all add: ignoreTabW_def hasTab_ignoreTab)

lemma fold_ignoreTabW_isIgnoredTab:
  "isIgnoredTab (w_tabs (fold (\<lambda>t. ignoreTabW (tab_id t) True) ts w)) k =
     (if k \<in> tab_id ` set ts \<and> hasTab (w_tabs w) k then True else isIgnoredTab (w_tabs w) k)"
  by (induction ts arbitrary: w)
     (auto simp: ignoreTabW_def hasTab_ignoreTab isIgnoredTab_ignoreTab)

lemma fold_chromeTabsRemove_calls:
  "w_calls (fold (\<lambda>t. chromeTabsRemove (tab_id t)) ts w) =
     w_calls w @ map (\<lambda>t. TabsRemove (tab_id t)) ts"
  by (induction ts arbitrary: w) (simp_all add: chromeTabsRemove_def)

lemma fold_chromeTabsRemove_tabs:
  "w_tabs (fold (\<lambda>t. chromeTabsRemove (tab_id t)) ts w) = w_tabs w"
  by (induction ts arbitrary: w) (simp_all add: chromeTabsRemove_def)

lemma callbackStep_eq:
  "(case removeTabCallback env tabId 0 w of
      (Inr u, w'') \<Rightarrow> w''
    | (Inl error, w'') \<Rightarrow> ignoreTabW tabId False w'') =
   (case removeTabSettles env tabId of
      Inr u \<Rightarrow> w\<lparr>w_now := w_now w + callbackTime env tabId 0,
                  w_calls := w_calls w @ callbackCalls env tabId 0\<rparr>
    | Inl error \<Rightarrow>
        ignoreTabW tabId False
          (w\<lparr>w_now := w_now w + callbackTime env tabId 0,
             w_calls := w_calls w @ callbackCalls env tabId 0\<rparr>))"
  by (simp add: removeTabCallback_eq removeTab_callback_conv split: sum.split
      del: removeTabCallback.simps)

lemma fold_callback_calls:
  "w_calls (fold (\<lambda>tabToClose w'.
                 case removeTabCallback env (tab_id tabToClose) 0 w' of
                   (Inr u, w'') \<Rightarrow> w''
                 | (Inl error, w'') \<Rightarrow> ignoreTabW (tab_id tabToClose) False w'') ts w) =
     w_calls w @
     concat (map (\<lambda>t. callbackCalls env (tab_id t) 0 @
                       (if removeTabSettles env (tab_id t) = Inr () then []
                        else [IgnoreTab (tab_id t) False])) ts)"
  unfolding callbackStep_eq
proof (induction ts arbitrary: w)
  case Nil
  show ?case by simp
next
  case (Cons t ts)
  show ?case
    by (cases "removeTabSettles env (tab_id t)")
       (simp_all add: Cons.IH ignoreTabW_def del: removeTabCallback.simps)
qed

lemma fold_callback_hasTab:
  "hasTab (w_tabs (fold (\<lambda>tabToClose w'.
                 case removeTabCallback env (tab_id tabToClose) 0 w' of
                   (Inr u, w'') \<Rightarrow> w''
                 | (Inl error, w'') \<Rightarrow> ignoreTabW (tab_id tabToClose) False w'') ts w)) k =
     hasTab (w_tabs w) k"
  unfolding callbackStep_eq
proof (induction ts arbitrary: w)
  case Nil
  show ?case by simp
next
  case (Cons t ts)
  show ?case
    by (cases "removeTabSettles env (tab_id t)")
       (simp_all add: Cons.IH ignoreTabW_def hasTab_ignoreTab
          del: removeTabCallback.simps)
qed

lemma fold_callback_isIgnoredTab:
  "isIgnoredTab (w_tabs (fold (\<lambda>tabToClose w'.
                 case removeTabCallback env (tab_id tabToClose) 0 w' of
                   (Inr u, w'') \<Rightarrow> w''
                 | (Inl error, w'') \<Rightarrow> ignoreTabW (tab_id tabToClose) False w'') ts w)) k =
     (if k \<in> tab_id ` set ts \<and> hasTab (w_tabs w) k \<and> removeTabSettles env k \<noteq> Inr ()
      then False else isIgnoredTab (w_tabs w) k)"
  unfolding callbackStep_eq
proof (induction ts arbitrary: w)
  case Nil
  show ?case by simp
next
  case (Cons t ts)
  show ?case
    by (cases "removeTabSettles env (tab_id t)")
       (auto simp: Cons.IH ignoreTabW_def hasTab_ignoreTab
          isIgnoredTab_ignoreTab simp del: removeTabCallback.simps)
qed

lemma closeConcurrently_calls:
  "w_calls (closeConcurrently env ts w) =
     w_calls w @ map (\<lambda>t. IgnoreTab (tab_id t) True) ts @
     map (\<lambda>t. TabsRemove (tab_id t)) ts @
     concat (map (\<lambda>t. callbackCalls env (tab_id t) 0 @
                       (if removeTabSettles env (tab_id t) = Inr () then []
                        else [IgnoreTab (tab_id t) False])) ts)"
  by (simp add: closeConcurrently_def Let_def fold_callback_calls fold_chromeTabsRemove_calls
      fold_ignoreTabW_calls del: removeTabCallback.simps)

lemma closeConcurrently_hasTab:
  "hasTab (w_tabs (closeConcurrently env ts w)) k = hasTab (w_tabs w) k"
  by (simp add: closeConcurrently_def Let_def fold_callback_hasTab fold_chromeTabsRemove_tabs
      fold_ignoreTabW_hasTab del: removeTabCallback.simps)

lemma closeConcurrently_isIgnoredTab:
  "isIgnoredTab (w_tabs (closeConcurrently env ts w)) k =
     (if k \<in> tab_id ` set ts \<and> hasTab (w_tabs w) k
      then removeTabSettles env k = Inr ()
      else isIgnoredTab (w_tabs w) k)"
  by (simp add: closeConcurrently_def Let_def fold_callback_isIgnoredTab
      fold_callback_hasTab fold_chromeTabsRemove_tabs fold_ignoreTabW_hasTab
      fold_ignoreTabW_isIgnoredTab del: removeTabCallback.simps)

lemma closeGroup_tabs:
  assumes "sortByLastAccessed (snd g) = tabToKeep # tabsToClose"
  shows "w_tabs (closeGroup env g w) =
           w_tabs (if length tabsToClose \<le> 4 then closeConcurrently env tabsToClose w
                   else closeSequentially env tabsToClose w)"
  using assms by (simp add: closeGroup_def Let_def focusTab_def)

lemma closeGroup_calls:
  assumes "sortByLastAccessed (snd g) = tabToKeep # tabsToClose"
  shows "w_calls (closeGroup env g w) =
           w_calls (if length tabsToClose \<le> 4 then closeConcurrently env tabsToClose w
                    else closeSequentially env tabsToClose w) @
           (if list_ex tab_active tabsToClose
            then [FocusTab (tab_id tabToKeep) (tab_windowId tabToKeep)] else [])"
  using assms by (simp add: closeGroup_def Let_def focusTab_def)

lemma Wait_25_notin_callbackCalls: "Wait 25 \<notin> set (callbackCalls env tabId retryCount)"
  using set_callbackCalls [of env tabId retryCount] by (auto simp: retryDelay_def)


lemma TabsRemove_in_callbackCalls:
  "TabsRemove i \<in> set (callbackCalls env tabId retryCount) \<Longrightarrow> i = tabId"
  using set_callbackCalls [of env tabId retryCount] by auto

section \<open>Properties of the startup pass and of \<^verbatim>\<open>closeDuplicateTab\<close>\<close>

lemma filter_callTab_concat:
  assumes "distinct (map tab_id ts)" and "t \<in> set ts"
    and other: "\<And>i. i \<noteq> tab_id t \<Longrightarrow> filter (\<lambda>c. callTab c = Some (tab_id t)) (f i) = []"
  shows "filter (\<lambda>c. callTab c = Some (tab_id t)) (concat (map (\<lambda>t. f (tab_id t)) ts)) =
           filter (\<lambda>c. callTab c = Some (tab_id t)) (f (tab_id t))"
  using assms(1,2)
proof (induction ts)
  case Nil
  then show ?case by simp
next
  case (Cons x xs)
  show ?case
  proof (cases "tab_id x = tab_id t")
    case True
    then have "tab_id t \<notin> tab_id ` set xs" using Cons.prems(1) by auto
    then have "\<forall>y \<in> set xs. tab_id y \<noteq> tab_id t" by (metis imageI)
    then have "filter (\<lambda>c. callTab c = Some (tab_id t)) (concat (map (\<lambda>t. f (tab_id t)) xs)) = []"
      by (induction xs) (simp_all add: other)
    then show ?thesis using True by simp
  next
    case False
    then have "t \<in> set xs" using Cons.prems(2) by auto
    moreover have "distinct (map tab_id xs)" using Cons.prems(1) by simp
    ultimately have "filter (\<lambda>c. callTab c = Some (tab_id t))
        (concat (map (\<lambda>t. f (tab_id t)) xs)) =
           filter (\<lambda>c. callTab c = Some (tab_id t)) (f (tab_id t))"
      by (rule Cons.IH [rotated])
    then show ?thesis using False by (simp add: other)
  qed
qed

lemma filter_callTab_callbackCalls_other:
  "i \<noteq> tabId \<Longrightarrow> filter (\<lambda>c. callTab c = Some i) (callbackCalls env tabId retryCount) = []"
  using set_callbackCalls [of env tabId retryCount]
  by (auto simp: filter_empty_conv)

lemma closeConcurrently_about:
  assumes "distinct (map tab_id ts)" and "t \<in> set ts"
  shows "filter (\<lambda>c. callTab c = Some (tab_id t))
           (map (\<lambda>t. IgnoreTab (tab_id t) True) ts @ map (\<lambda>t. TabsRemove (tab_id t)) ts @
            concat (map (\<lambda>t. callbackCalls env (tab_id t) 0 @
                       (if removeTabSettles env (tab_id t) = Inr () then []
                        else [IgnoreTab (tab_id t) False])) ts)) =
         IgnoreTab (tab_id t) True #
         filter (\<lambda>c. callTab c = Some (tab_id t)) (removeTabCalls env (tab_id t)) @
         (if removeTabSettles env (tab_id t) = Inr () then []
          else [IgnoreTab (tab_id t) False])"
proof -
  let ?about = "\<lambda>c. callTab c = Some (tab_id t)"
  have "filter ?about (concat (map (\<lambda>t. [IgnoreTab (tab_id t) True]) ts)) =
          filter ?about [IgnoreTab (tab_id t) True]"
    by (rule filter_callTab_concat [OF assms, of "\<lambda>i. [IgnoreTab i True]"]) simp
  then have a: "filter ?about (map (\<lambda>t. IgnoreTab (tab_id t) True) ts)
                  = [IgnoreTab (tab_id t) True]"
    by (simp add: concat_map_singleton)
  have "filter ?about (concat (map (\<lambda>t. [TabsRemove (tab_id t)]) ts)) =
          filter ?about [TabsRemove (tab_id t)]"
    by (rule filter_callTab_concat [OF assms, of "\<lambda>i. [TabsRemove i]"]) simp
  then have b: "filter ?about (map (\<lambda>t. TabsRemove (tab_id t)) ts) = [TabsRemove (tab_id t)]"
    by (simp add: concat_map_singleton)
  have "filter ?about (concat (map (\<lambda>t. callbackCalls env (tab_id t) 0 @
                       (if removeTabSettles env (tab_id t) = Inr () then []
                        else [IgnoreTab (tab_id t) False])) ts)) =
        filter ?about (callbackCalls env (tab_id t) 0 @
                       (if removeTabSettles env (tab_id t) = Inr () then []
                        else [IgnoreTab (tab_id t) False]))"
    by (rule filter_callTab_concat [OF assms, of "\<lambda>i. callbackCalls env i 0 @
                       (if removeTabSettles env i = Inr () then []
                        else [IgnoreTab i False])"])
       (simp add: filter_callTab_callbackCalls_other)
  then have c: "filter ?about (concat (map (\<lambda>t. callbackCalls env (tab_id t) 0 @
                       (if removeTabSettles env (tab_id t) = Inr () then []
                        else [IgnoreTab (tab_id t) False])) ts)) =
           filter ?about (callbackCalls env (tab_id t) 0) @
           (if removeTabSettles env (tab_id t) = Inr () then []
            else [IgnoreTab (tab_id t) False])"
    by simp
  show ?thesis
    by (simp add: a b c removeTab_callback_conv(2))
qed

lemma callTab_None_callbackCalls:
  "c \<in> set (callbackCalls env tabId retryCount) \<Longrightarrow> callTab c = None \<Longrightarrow> c = Wait 50"
  using set_callbackCalls [of env tabId retryCount] by (auto simp: retryDelay_def)

text \<open>
  C7 (amended): for a duplicate group whose tabs, sorted, are the kept tab followed by
  the losers. With at most 4 losers (the concurrent branch) the pass sets every loser's
  flag, then issues every loser's removal request, before it handles any answer; the
  calls of the answers follow, and then the refocus of the kept tab if a loser was
  active. Of the answers' calls those about no tab are retry waits of 50 ms (there is no
  wait of 25 ms), and, the losers' ids being distinct, the calls about one loser are
  those of its own removal whatever the other removals answer: its flag set, its
  requests, and its flag reset exactly when its removal failed. A loser the registry
  tracks is ignored afterwards exactly when its own removal succeeded. With 5 or more
  losers (the sequential branch) the pass handles the losers one after the other: the
  flag, the requests and retries, then a wait of 25 ms after a removal that succeeded, or
  the flag reset and no wait after one that failed, before the next loser's first call.
\<close>

theorem closeGroup_concurrency_boundary:
  assumes "sortByLastAccessed (snd g) = tabToKeep # tabsToClose"
  shows "(length tabsToClose \<le> 4 \<longrightarrow>
            (\<exists>answers. w_calls (closeGroup env g w) =
                      w_calls w @ map (\<lambda>t. IgnoreTab (tab_id t) True) tabsToClose @
                      map (\<lambda>t. TabsRemove (tab_id t)) tabsToClose @ answers @
                      (if list_ex tab_active tabsToClose
                       then [FocusTab (tab_id tabToKeep) (tab_windowId tabToKeep)] else []) \<and>
                    (\<forall>c \<in> set answers. callTab c = None \<longrightarrow> c = Wait 50) \<and>
                    (distinct (map tab_id tabsToClose) \<longrightarrow>
                       (\<forall>t \<in> set tabsToClose.
                          filter (\<lambda>c. callTab c = Some (tab_id t))
                            (map (\<lambda>t. IgnoreTab (tab_id t) True) tabsToClose @
                             map (\<lambda>t. TabsRemove (tab_id t)) tabsToClose @ answers) =
                          IgnoreTab (tab_id t) True #
                          filter (\<lambda>c. callTab c = Some (tab_id t))
                            (removeTabCalls env (tab_id t)) @
                          (if removeTabSettles env (tab_id t) = Inr () then []
                           else [IgnoreTab (tab_id t) False])))) \<and>
            (\<forall>t \<in> set tabsToClose.
               hasTab (w_tabs w) (tab_id t) \<longrightarrow>
               isIgnoredTab (w_tabs (closeGroup env g w)) (tab_id t) =
                 (removeTabSettles env (tab_id t) = Inr ()))) \<and>
         (5 \<le> length tabsToClose \<longrightarrow>
            w_calls (closeGroup env g w) =
              w_calls w @
              concat (map (\<lambda>t. IgnoreTab (tab_id t) True # removeTabCalls env (tab_id t) @
                                [if removeTabSettles env (tab_id t) = Inr () then Wait 25
                                 else IgnoreTab (tab_id t) False]) tabsToClose) @
              (if list_ex tab_active tabsToClose
               then [FocusTab (tab_id tabToKeep) (tab_windowId tabToKeep)] else []))"
proof (intro conjI impI ballI)
  assume le: "length tabsToClose \<le> 4"
  let ?answers = "concat (map (\<lambda>t. callbackCalls env (tab_id t) 0 @
                       (if removeTabSettles env (tab_id t) = Inr () then []
                        else [IgnoreTab (tab_id t) False])) tabsToClose)"
  have calls: "w_calls (closeGroup env g w) =
          w_calls w @ map (\<lambda>t. IgnoreTab (tab_id t) True) tabsToClose @
          map (\<lambda>t. TabsRemove (tab_id t)) tabsToClose @ ?answers @
          (if list_ex tab_active tabsToClose
           then [FocusTab (tab_id tabToKeep) (tab_windowId tabToKeep)] else [])"
    using le by (simp add: closeGroup_calls [OF assms] closeConcurrently_calls)
  have waits: "\<forall>c \<in> set ?answers. callTab c = None \<longrightarrow> c = Wait 50"
    by (auto dest: callTab_None_callbackCalls split: if_splits)
  have about: "distinct (map tab_id tabsToClose) \<longrightarrow>
       (\<forall>t \<in> set tabsToClose.
          filter (\<lambda>c. callTab c = Some (tab_id t))
            (map (\<lambda>t. IgnoreTab (tab_id t) True) tabsToClose @
             map (\<lambda>t. TabsRemove (tab_id t)) tabsToClose @ ?answers) =
          IgnoreTab (tab_id t) True #
          filter (\<lambda>c. callTab c = Some (tab_id t)) (removeTabCalls env (tab_id t)) @
          (if removeTabSettles env (tab_id t) = Inr () then []
           else [IgnoreTab (tab_id t) False]))"
    using closeConcurrently_about [of tabsToClose _ env] by blast
  from calls waits about
  show "\<exists>answers. w_calls (closeGroup env g w) =
                      w_calls w @ map (\<lambda>t. IgnoreTab (tab_id t) True) tabsToClose @
                      map (\<lambda>t. TabsRemove (tab_id t)) tabsToClose @ answers @
                      (if list_ex tab_active tabsToClose
                       then [FocusTab (tab_id tabToKeep) (tab_windowId tabToKeep)] else []) \<and>
                    (\<forall>c \<in> set answers. callTab c = None \<longrightarrow> c = Wait 50) \<and>
                    (distinct (map tab_id tabsToClose) \<longrightarrow>
                       (\<forall>t \<in> set tabsToClose.
                          filter (\<lambda>c. callTab c = Some (tab_id t))
                            (map (\<lambda>t. IgnoreTab (tab_id t) True) tabsToClose @
                             map (\<lambda>t. TabsRemove (tab_id t)) tabsToClose @ answers) =
                          IgnoreTab (tab_id t) True #
                          filter (\<lambda>c. callTab c = Some (tab_id t))
                            (removeTabCalls env (tab_id t)) @
                          (if removeTabSettles env (tab_id t) = Inr () then []
                           else [IgnoreTab (tab_id t) False])))"
    by (intro exI [of _ ?answers] conjI)
  fix t assume "t \<in> set tabsToClose" and "hasTab (w_tabs w) (tab_id t)"
  then show "isIgnoredTab (w_tabs (closeGroup env g w)) (tab_id t) =
                 (removeTabSettles env (tab_id t) = Inr ())"
    using le by (simp add: closeGroup_tabs [OF assms] closeConcurrently_isIgnoredTab)
next
  assume "5 \<le> length tabsToClose"
  then show "w_calls (closeGroup env g w) =
              w_calls w @
              concat (map (\<lambda>t. IgnoreTab (tab_id t) True # removeTabCalls env (tab_id t) @
                                [if removeTabSettles env (tab_id t) = Inr () then Wait 25
                                 else IgnoreTab (tab_id t) False]) tabsToClose) @
              (if list_ex tab_active tabsToClose
               then [FocusTab (tab_id tabToKeep) (tab_windowId tabToKeep)] else [])"
    by (simp add: closeGroup_calls [OF assms] closeSequentially_calls)
qed








lemma closeGroup_hasTab: "hasTab (w_tabs (closeGroup env g w)) k = hasTab (w_tabs w) k"
  by (simp add: closeGroup_def Let_def focusTab_def closeConcurrently_hasTab
      closeSequentially_hasTab split: list.split)


lemma fold_closeGroup_hasTab:
  "hasTab (w_tabs (fold (closeGroup env) gs w)) k = hasTab (w_tabs w) k"
  by (induction gs arbitrary: w) (simp_all add: closeGroup_hasTab)



lemma closeGroup_calls_idle:
  "w_calls (closeGroup env g w) = w_calls w @ w_calls (closeGroup env g idleWorld)"
  by (simp add: closeGroup_def Let_def focusTab_def closeConcurrently_calls
      closeSequentially_calls idleWorld_def split: list.split)

lemma fold_closeGroup_calls:
  "w_calls (fold (closeGroup env) gs w) =
     w_calls w @ concat (map (\<lambda>g. w_calls (closeGroup env g idleWorld)) gs)"
proof (induction gs arbitrary: w)
  case Nil
  show ?case by simp
next
  case (Cons g gs)
  show ?case
    by (simp add: Cons.IH closeGroup_calls_idle [of env g w])
qed

text \<open>
  The calls of the whole pass are the calls of its groups, one group after the other,
  each as described for \<open>closeGroup\<close> above.
\<close>

lemma findAndCloseDuplicatesOnInstall_calls:
  assumes "length ats > 1"
  shows "w_calls (findAndCloseDuplicatesOnInstall env (Some ats) w) =
           w_calls w @
           concat (map (\<lambda>g. w_calls (closeGroup env g idleWorld))
                     (filter (\<lambda>(u, ts). length ts > 1) (groupTabs ats)))"
  using assms by (simp add: findAndCloseDuplicatesOnInstall_def Let_def fold_closeGroup_calls)


section \<open>The startup pass and \<^verbatim>\<open>closeDuplicateTab\<close> on the example groups\<close>

lemma exampleTabAt_simps:
  "tab_id (exampleTabAt i a la) = i"
  "tab_windowId (exampleTabAt i a la) = 7"
  "tab_active (exampleTabAt i a la) = a"
  "tab_lastAccessed (exampleTabAt i a la) = Some la"
  by (simp_all add: exampleTabAt_def)

lemma sortByLastAccessed_exampleGroup4:
  "sortByLastAccessed (snd exampleGroup4) =
     exampleTabAt 2 False 50 #
     [exampleTabAt 5 False 40, exampleTabAt 3 False 30, exampleTabAt 4 True 20,
      exampleTabAt 1 False 10]"
  by (simp add: sortByLastAccessed_def exampleGroup4_def exampleTabAt_simps)

lemma sortByLastAccessed_exampleGroup5:
  "sortByLastAccessed (snd exampleGroup5) =
     exampleTabAt 2 False 50 #
     [exampleTabAt 5 False 40, exampleTabAt 3 False 30, exampleTabAt 4 True 20,
      exampleTabAt 1 False 10, exampleTabAt 6 False 5]"
  by (simp add: sortByLastAccessed_def exampleGroup5_def exampleTabAt_simps)


lemma removeTab_exampleEnvGone:
  "removeTabSettles exampleEnvGone tabId = Inl ''No tab with id: 5.''"
  by (simp add: removeTabSettles_def removeTab_def
      removeTabCallback.simps [of exampleEnvGone] exampleEnvGone_def includesStr_gone
      del: includesStr.simps)

lemma includesStr_gone3:
  "\<not> includesStr ''No tab with id: 3.'' ''Tabs cannot be edited right now''"
  by (simp add: startsWith_def)

lemma removeTab_exampleEnvMixed:
  "removeTabSettles exampleEnvMixed 3 = Inl ''No tab with id: 3.''"
  "removeTabCalls exampleEnvMixed 3 = [TabsRemove 3]"
  "removeTabSettles exampleEnvMixed 5 = Inr ()"
  "removeTabCalls exampleEnvMixed 5 = [TabsRemove 5, Wait 50, TabsRemove 5, Wait 50, TabsRemove 5]"
  "removeTabSettles exampleEnvMixed 4 = Inr ()"
  "removeTabCalls exampleEnvMixed 4 = [TabsRemove 4]"
  "removeTabSettles exampleEnvMixed 1 = Inr ()"
  "removeTabCalls exampleEnvMixed 1 = [TabsRemove 1]"
  "removeTabSettles exampleEnvMixed 6 = Inr ()"
  "removeTabCalls exampleEnvMixed 6 = [TabsRemove 6]"
  by (simp_all add: removeTabSettles_def removeTabCalls_def removeTab_def
      removeTabCallback.simps [of exampleEnvMixed] exampleEnvMixed_def chromeTabsRemove_def
      wait_def idleWorld_def includesStr_locked includesStr_gone3 maxRetries_def retryDelay_def
      del: includesStr.simps)

lemma removeTabCalls_exampleEnvGone:
  "removeTabCalls exampleEnvGone tabId = [TabsRemove tabId]"
  "removeTabTime exampleEnvGone tabId = 0"
  by (simp_all add: removeTabCalls_def removeTabTime_def removeTab_def
      removeTabCallback.simps [of exampleEnvGone] exampleEnvGone_def includesStr_gone
      chromeTabsRemove_def idleWorld_def del: includesStr.simps)

text \<open>
  C7 (as the claim states it, refuted): a group of 5 losers takes the sequential branch,
  but no delay separates removals that fail. With every removal rejected, the five
  requests follow one another with no wait between them and the clock does not advance.
\<close>

theorem closeGroup_sequential_delay_counterexample:
  "length (tl (sortByLastAccessed (snd exampleGroup5))) = 5 \<and>
   w_calls (closeGroup exampleEnvGone exampleGroup5 exampleWorld) =
     [IgnoreTab 5 True, TabsRemove 5, IgnoreTab 5 False,
      IgnoreTab 3 True, TabsRemove 3, IgnoreTab 3 False,
      IgnoreTab 4 True, TabsRemove 4, IgnoreTab 4 False,
      IgnoreTab 1 True, TabsRemove 1, IgnoreTab 1 False,
      IgnoreTab 6 True, TabsRemove 6, IgnoreTab 6 False, FocusTab 2 7] \<and>
   w_now (closeGroup exampleEnvGone exampleGroup5 exampleWorld) = w_now exampleWorld"
  by (simp add: closeGroup_def sortByLastAccessed_exampleGroup5 closeSequentially_Cons
      closeSequentially_Nil removeTab_exampleEnvGone removeTabCalls_exampleEnvGone
      ignoreTabW_def focusTab_def Let_def exampleTabAt_simps exampleWorld_def)

lemma hasTab_exampleWorld_losers:
  "hasTab (w_tabs exampleWorld) 1" "hasTab (w_tabs exampleWorld) 3"
  "hasTab (w_tabs exampleWorld) 4" "\<not> hasTab (w_tabs exampleWorld) 5"
  by (simp_all add: hasTab_def exampleWorld_def exampleTabs_def)

theorem closeGroup_concurrency_boundary_witness:
  "(\<exists>answers.
      w_calls (closeGroup exampleEnvMixed exampleGroup4 exampleWorld) =
        [IgnoreTab 5 True, IgnoreTab 3 True, IgnoreTab 4 True, IgnoreTab 1 True,
         TabsRemove 5, TabsRemove 3, TabsRemove 4, TabsRemove 1] @ answers @ [FocusTab 2 7] \<and>
      (\<forall>c \<in> set answers. callTab c = None \<longrightarrow> c = Wait 50) \<and>
      filter (\<lambda>c. callTab c = Some 5) answers = [TabsRemove 5, TabsRemove 5] \<and>
      filter (\<lambda>c. callTab c = Some 3) answers = [IgnoreTab 3 False] \<and>
      filter (\<lambda>c. callTab c = Some 4) answers = [] \<and>
      filter (\<lambda>c. callTab c = Some 1) answers = []) \<and>
   \<not> isIgnoredTab (w_tabs (closeGroup exampleEnvMixed exampleGroup4 exampleWorld)) 3 \<and>
   isIgnoredTab (w_tabs (closeGroup exampleEnvMixed exampleGroup4 exampleWorld)) 4 \<and>
   isIgnoredTab (w_tabs (closeGroup exampleEnvMixed exampleGroup4 exampleWorld)) 1 \<and>
   w_calls (closeGroup exampleEnvMixed exampleGroup5 exampleWorld) =
     [IgnoreTab 5 True, TabsRemove 5, Wait 50, TabsRemove 5, Wait 50, TabsRemove 5, Wait 25,
      IgnoreTab 3 True, TabsRemove 3, IgnoreTab 3 False,
      IgnoreTab 4 True, TabsRemove 4, Wait 25,
      IgnoreTab 1 True, TabsRemove 1, Wait 25,
      IgnoreTab 6 True, TabsRemove 6, Wait 25, FocusTab 2 7]"
proof -
  have c4: "(\<exists>answers.
      w_calls (closeGroup exampleEnvMixed exampleGroup4 exampleWorld) =
        [IgnoreTab 5 True, IgnoreTab 3 True, IgnoreTab 4 True, IgnoreTab 1 True,
         TabsRemove 5, TabsRemove 3, TabsRemove 4, TabsRemove 1] @ answers @ [FocusTab 2 7] \<and>
      (\<forall>c \<in> set answers. callTab c = None \<longrightarrow> c = Wait 50) \<and>
      filter (\<lambda>c. callTab c = Some 5) answers = [TabsRemove 5, TabsRemove 5] \<and>
      filter (\<lambda>c. callTab c = Some 3) answers = [IgnoreTab 3 False] \<and>
      filter (\<lambda>c. callTab c = Some 4) answers = [] \<and>
      filter (\<lambda>c. callTab c = Some 1) answers = []) \<and>
   \<not> isIgnoredTab (w_tabs (closeGroup exampleEnvMixed exampleGroup4 exampleWorld)) 3 \<and>
   isIgnoredTab (w_tabs (closeGroup exampleEnvMixed exampleGroup4 exampleWorld)) 4 \<and>
   isIgnoredTab (w_tabs (closeGroup exampleEnvMixed exampleGroup4 exampleWorld)) 1"
    using closeGroup_concurrency_boundary
      [OF sortByLastAccessed_exampleGroup4, of exampleEnvMixed exampleWorld, THEN conjunct1]
    by (simp add: exampleTabAt_simps exampleWorld_def [THEN arg_cong, of w_calls]
        hasTab_exampleWorld_losers removeTab_exampleEnvMixed)
  have c5: "w_calls (closeGroup exampleEnvMixed exampleGroup5 exampleWorld) =
     [IgnoreTab 5 True, TabsRemove 5, Wait 50, TabsRemove 5, Wait 50, TabsRemove 5, Wait 25,
      IgnoreTab 3 True, TabsRemove 3, IgnoreTab 3 False,
      IgnoreTab 4 True, TabsRemove 4, Wait 25,
      IgnoreTab 1 True, TabsRemove 1, Wait 25,
      IgnoreTab 6 True, TabsRemove 6, Wait 25, FocusTab 2 7]"
    using closeGroup_concurrency_boundary
      [OF sortByLastAccessed_exampleGroup5, of exampleEnvMixed exampleWorld, THEN conjunct2]
    by (simp add: exampleTabAt_simps exampleWorld_def [THEN arg_cong, of w_calls]
        removeTab_exampleEnvMixed)
  show ?thesis using c4 c5 by blast
qed





end
